theory Spec2Isabelle
  imports Complex_Main "HOL-Library.AList" "HOL-Library.Sublist"
begin

section \<open>Values of the Python program\<close>

text \<open>
  A Python \<open>str\<close> is a sequence of Unicode code points, a \<open>bytes\<close> object a
  sequence of octets; both are lists of naturals here. \<open>ustr\<close> turns an ASCII literal
  into its code points. The interpreter's resource limits (recursion depth, digit
  limits, memory) are outside the model.
\<close>

type_synonym pystr = "nat list"
type_synonym bytes = "nat list"

definition ustr :: "string \<Rightarrow> pystr" where
  "ustr s = map of_char s"

text \<open>What \<open>json.loads\<close> and \<open>Response.json()\<close> return. A \<open>dict\<close> keeps its
  insertion order, so it is an association list. \<open>JFloat\<close> holds the value of a finite
  double; the literals \<open>Infinity\<close> and \<open>NaN\<close>, which are no JSON but which the parser
  accepts too, are not represented.\<close>

datatype json =
    JNull
  | JBool bool
  | JInt int
  | JFloat real
  | JStr pystr
  | JArr "json list"
  | JObj "(pystr \<times> json) list"

datatype py_error =
    IndexError
  | KeyError
  | TypeError
  | ValueError
  | AttributeError
  | BinasciiError
  | JSONDecodeError
  | UnicodeEncodeError
  | ReError
  | HTTPStatusError
  | TransportError
  | OverflowError

text \<open>A \<open>float\<close> computed by the aggregator: a finite double, \<open>float("inf")\<close> or
  \<open>float("-inf")\<close>, ordered as Python compares them. (Sums and quotients of finite
  numbers are never NaN.)\<close>

datatype latency = Finite real | Infinite | NegInfinite

fun latency_le :: "latency \<Rightarrow> latency \<Rightarrow> bool" where
  "latency_le NegInfinite _ = True"
| "latency_le (Finite a) NegInfinite = False"
| "latency_le (Finite a) (Finite b) = (a \<le> b)"
| "latency_le (Finite a) Infinite = True"
| "latency_le Infinite Infinite = True"
| "latency_le Infinite _ = False"

instantiation latency :: linorder
begin

definition less_eq_latency :: "latency \<Rightarrow> latency \<Rightarrow> bool" where
  "less_eq_latency a b = latency_le a b"

definition less_latency :: "latency \<Rightarrow> latency \<Rightarrow> bool" where
  "less_latency a b = (latency_le a b \<and> \<not> latency_le b a)"

instance
proof
  fix x y z :: latency
  show "(x < y) = (x \<le> y \<and> \<not> y \<le> x)"
    by (simp add: less_latency_def less_eq_latency_def)
  show "x \<le> x"
    by (cases x) (simp_all add: less_eq_latency_def)
  show "x \<le> y \<Longrightarrow> y \<le> z \<Longrightarrow> x \<le> z"
    by (cases x; cases y; cases z) (simp_all add: less_eq_latency_def)
  show "x \<le> y \<Longrightarrow> y \<le> x \<Longrightarrow> x = y"
    by (cases x; cases y) (simp_all add: less_eq_latency_def)
  show "x \<le> y \<or> y \<le> x"
    by (cases x; cases y) (auto simp: less_eq_latency_def)
qed

end

section \<open>Aggregator: \<open>extract_latency_by_country\<close>\<close>

text \<open>\<open>entries[0]\<close>: the first element of a list or string; a dict has string keys
  only, so key \<open>0\<close> is missing; anything else is not subscriptable.\<close>

fun index0 :: "json \<Rightarrow> py_error + json" where
  "index0 (JArr []) = Inl IndexError"
| "index0 (JArr (x # xs)) = Inr x"
| "index0 (JStr []) = Inl IndexError"
| "index0 (JStr (c # cs)) = Inr (JStr [c])"
| "index0 (JObj kvs) = Inl KeyError"
| "index0 _ = Inl TypeError"

text \<open>What a \<open>for\<close> loop or a tuple unpacking iterates over.\<close>

fun py_iter :: "json \<Rightarrow> py_error + json list" where
  "py_iter (JArr xs) = Inr xs"
| "py_iter (JStr s) = Inr (map (\<lambda>c. JStr [c]) s)"
| "py_iter (JObj kvs) = Inr (map (\<lambda>kv. JStr (fst kv)) kvs)"
| "py_iter _ = Inl TypeError"

text \<open>\<open>status, ping = observation\<close>: exactly two items, or an exception.\<close>

definition unpack2 :: "json \<Rightarrow> py_error + (json \<times> json)" where
  "unpack2 obs =
     (case py_iter obs of
        Inl e \<Rightarrow> Inl e
      | Inr [a, b] \<Rightarrow> Inr (a, b)
      | Inr _ \<Rightarrow> Inl ValueError)"

text \<open>The inner loop \<open>for status, ping in entries[0]\<close>: the samples appended before
  the first observation that fails to unpack stay in \<open>pings\<close>; the exception then ends
  this node (\<open>except Exception: continue\<close>).\<close>

fun collect_ok :: "json list \<Rightarrow> json list" where
  "collect_ok [] = []"
| "collect_ok (obs # rest) =
     (case unpack2 obs of
        Inl e \<Rightarrow> []
      | Inr (status, ping) \<Rightarrow>
          (if status = JStr (ustr ''OK'') then ping # collect_ok rest else collect_ok rest))"

definition node_pings :: "json \<Rightarrow> json list" where
  "node_pings entries =
     (case index0 entries of
        Inl e \<Rightarrow> []
      | Inr first \<Rightarrow> (case py_iter first of Inl e \<Rightarrow> [] | Inr obss \<Rightarrow> collect_ok obss))"

text \<open>\<open>results.get(node, [])\<close> stands outside the \<open>try\<close>: a result that is no dict
  raises \<open>AttributeError\<close> out of the function.\<close>

definition results_get :: "json \<Rightarrow> pystr \<Rightarrow> py_error + json" where
  "results_get results node =
     (case results of
        JObj kvs \<Rightarrow> Inr (case map_of kvs node of None \<Rightarrow> JArr [] | Some e \<Rightarrow> e)
      | _ \<Rightarrow> Inl AttributeError)"

fun country_pings :: "json \<Rightarrow> pystr list \<Rightarrow> py_error + json list" where
  "country_pings results [] = Inr []"
| "country_pings results (node # nodes) =
     (case results_get results node of
        Inl e \<Rightarrow> Inl e
      | Inr entries \<Rightarrow>
          (case country_pings results nodes of
             Inl e \<Rightarrow> Inl e
           | Inr ps \<Rightarrow> Inr (node_pings entries @ ps)))"

section \<open>Arithmetic of \<open>sum(pings) / len(pings)\<close>\<close>

text \<open>
  Python's \<open>int\<close> is unbounded and exact; its \<open>float\<close> is an IEEE double. A double
  operation yields the exact real result rounded to a double. The rounding function
  \<open>rnd\<close> (to the nearest double, to \<open>+infinity\<close> or \<open>-infinity\<close> beyond the largest
  one) is a parameter of the model: every statement below holds whatever the rounding
  is.
\<close>

type_synonym rounding = "real \<Rightarrow> latency"

text \<open>A running sum: an \<open>int\<close> or a \<open>float\<close>.\<close>

datatype pynum = PInt int | PFloat latency

text \<open>\<open>float(i)\<close> for an \<open>int\<close>, as the mixed operations convert it: an integer beyond
  the range of doubles raises \<open>OverflowError\<close>.\<close>

definition int_to_float :: "rounding \<Rightarrow> int \<Rightarrow> py_error + real" where
  "int_to_float rnd i =
     (case rnd (real_of_int i) of Finite y \<Rightarrow> Inr y | _ \<Rightarrow> Inl OverflowError)"

text \<open>A \<open>float\<close> plus a finite double: an infinite sum stays infinite.\<close>

fun float_add :: "rounding \<Rightarrow> latency \<Rightarrow> real \<Rightarrow> latency" where
  "float_add rnd (Finite a) b = rnd (a + b)"
| "float_add rnd Infinite b = Infinite"
| "float_add rnd NegInfinite b = NegInfinite"

text \<open>\<open>acc + item\<close>, for the items a parsed JSON document can hold (\<open>bool\<close> is a
  subclass of \<open>int\<close>); an item that is no number raises \<open>TypeError\<close>.\<close>

fun py_add :: "rounding \<Rightarrow> pynum \<Rightarrow> json \<Rightarrow> py_error + pynum" where
  "py_add rnd (PInt a) (JInt i) = Inr (PInt (a + i))"
| "py_add rnd (PInt a) (JBool b) = Inr (PInt (a + (if b then 1 else 0)))"
| "py_add rnd (PInt a) (JFloat r) =
     (case int_to_float rnd a of
        Inl e \<Rightarrow> Inl e
      | Inr x \<Rightarrow> Inr (PFloat (rnd (x + r))))"
| "py_add rnd (PFloat f) (JInt i) =
     (case int_to_float rnd i of
        Inl e \<Rightarrow> Inl e
      | Inr x \<Rightarrow> Inr (PFloat (float_add rnd f x)))"
| "py_add rnd (PFloat f) (JBool b) = Inr (PFloat (float_add rnd f (if b then 1 else 0)))"
| "py_add rnd (PFloat f) (JFloat r) = Inr (PFloat (float_add rnd f r))"
| "py_add rnd acc _ = Inl TypeError"

text \<open>\<open>sum(pings)\<close> starts from the integer 0 and adds the items from left to right.
  (From Python 3.12 on \<open>sum\<close> compensates the rounding errors of a run of floats; that
  changes the last bits of an inexact sum and nothing else.)\<close>

fun py_sum :: "rounding \<Rightarrow> pynum \<Rightarrow> json list \<Rightarrow> py_error + pynum" where
  "py_sum rnd acc [] = Inr acc"
| "py_sum rnd acc (p # ps) =
     (case py_add rnd acc p of
        Inl e \<Rightarrow> Inl e
      | Inr acc' \<Rightarrow> py_sum rnd acc' ps)"

text \<open>\<open>s / len(pings)\<close> with a positive length (one that is exactly a double, as
  every length below \<open>2 ^ 53\<close> is). \<open>int / int\<close> is the correctly rounded quotient and
  raises \<open>OverflowError\<close> when it is beyond the range of doubles; a \<open>float\<close> is divided in
  double arithmetic.\<close>

fun py_truediv :: "rounding \<Rightarrow> pynum \<Rightarrow> nat \<Rightarrow> py_error + latency" where
  "py_truediv rnd (PInt a) n =
     (case rnd (real_of_int a / real n) of
        Finite y \<Rightarrow> Inr (Finite y)
      | _ \<Rightarrow> Inl OverflowError)"
| "py_truediv rnd (PFloat (Finite a)) n = Inr (rnd (a / real n))"
| "py_truediv rnd (PFloat Infinite) n = Inr Infinite"
| "py_truediv rnd (PFloat NegInfinite) n = Inr NegInfinite"

text \<open>\<open>sum(pings) / len(pings) if pings else float("inf")\<close>.\<close>

definition mean_latency :: "rounding \<Rightarrow> json list \<Rightarrow> py_error + latency" where
  "mean_latency rnd pings =
     (if pings = [] then Inr Infinite
      else (case py_sum rnd (PInt 0) pings of
              Inl e \<Rightarrow> Inl e
            | Inr s \<Rightarrow> py_truediv rnd s (length pings)))"

text \<open>The outer loop \<open>for country, nodes in country_nodes.items()\<close> and the function.\<close>

fun latency_loop ::
  "rounding \<Rightarrow> json \<Rightarrow> (pystr \<times> pystr list) list \<Rightarrow> (pystr \<times> latency) list
     \<Rightarrow> py_error + (pystr \<times> latency) list" where
  "latency_loop rnd results [] latencies = Inr latencies"
| "latency_loop rnd results ((country, nodes) # rest) latencies =
     (case country_pings results nodes of
        Inl e \<Rightarrow> Inl e
      | Inr pings \<Rightarrow>
          (case mean_latency rnd pings of
             Inl e \<Rightarrow> Inl e
           | Inr lat \<Rightarrow> latency_loop rnd results rest (AList.update country lat latencies)))"

definition extract_latency_by_country ::
  "rounding \<Rightarrow> json \<Rightarrow> (pystr \<times> pystr list) list \<Rightarrow> py_error + (pystr \<times> latency) list" where
  "extract_latency_by_country rnd results country_nodes =
     latency_loop rnd results country_nodes []"


section \<open>Ranker: the per-country part of \<open>main_async\<close>\<close>

text \<open>\<open>extract_latency_by_country(res, {country: nodes}).get(country, float("inf"))\<close>.\<close>

definition host_latency ::
  "rounding \<Rightarrow> pystr \<Rightarrow> pystr list \<Rightarrow> json \<Rightarrow> py_error + latency" where
  "host_latency rnd country nodes res =
     (case extract_latency_by_country rnd res [(country, nodes)] of
        Inl e \<Rightarrow> Inl e
      | Inr d \<Rightarrow> Inr (case map_of d country of None \<Rightarrow> Infinite | Some l \<Rightarrow> l))"

text \<open>\<open>for link, h in all_pairs: if h == host: latencies[link] = lat\<close>.\<close>

fun assign_host ::
  "pystr \<Rightarrow> latency \<Rightarrow> (pystr \<times> pystr) list \<Rightarrow> (pystr \<times> latency) list
     \<Rightarrow> (pystr \<times> latency) list" where
  "assign_host host lat [] latencies = latencies"
| "assign_host host lat ((link, h) # pairs) latencies =
     assign_host host lat pairs
       (if h = host then AList.update link lat latencies else latencies)"

text \<open>\<open>for host, res in results.items()\<close>. \<open>results\<close> is \<open>dict(zip(hosts,
  ping_results))\<close> with \<open>hosts = list({host for _, host in all_pairs})\<close>: the order of
  its items is the iteration order of a set, which the program does not control, so
  the items come as an argument.\<close>

fun link_latencies ::
  "rounding \<Rightarrow> pystr \<Rightarrow> pystr list \<Rightarrow> (pystr \<times> json) list \<Rightarrow> (pystr \<times> pystr) list
     \<Rightarrow> (pystr \<times> latency) list \<Rightarrow> py_error + (pystr \<times> latency) list" where
  "link_latencies rnd country nodes [] all_pairs latencies = Inr latencies"
| "link_latencies rnd country nodes ((host, res) # results) all_pairs latencies =
     (case host_latency rnd country nodes res of
        Inl e \<Rightarrow> Inl e
      | Inr lat \<Rightarrow>
          link_latencies rnd country nodes results all_pairs
            (assign_host host lat all_pairs latencies))"

text \<open>\<open>[l for l, _ in sorted(latencies.items(), key=lambda x: x[1])]\<close>; \<open>sorted\<close> is
  a stable sort, as \<open>sort_key\<close> is.\<close>

definition sorted_links ::
  "rounding \<Rightarrow> pystr \<Rightarrow> pystr list \<Rightarrow> (pystr \<times> json) list \<Rightarrow> (pystr \<times> pystr) list
     \<Rightarrow> py_error + pystr list" where
  "sorted_links rnd country nodes results all_pairs =
     (case link_latencies rnd country nodes results all_pairs [] of
        Inl e \<Rightarrow> Inl e
      | Inr latencies \<Rightarrow> Inr (map fst (sort_key snd latencies)))"

text \<open>The order in which keys enter a \<open>dict\<close>: a key already present keeps its
  place. \<open>table_order\<close> is the key order of the latency table the loops above build:
  host by host in the order of \<open>results\<close>, each host's links in discovery order.\<close>

fun first_seen :: "'a list \<Rightarrow> 'a list \<Rightarrow> 'a list" where
  "first_seen seen [] = seen"
| "first_seen seen (x # xs) = first_seen (if x \<in> set seen then seen else seen @ [x]) xs"

definition links_of_host :: "pystr \<Rightarrow> (pystr \<times> pystr) list \<Rightarrow> pystr list" where
  "links_of_host host all_pairs = map fst (filter (\<lambda>p. snd p = host) all_pairs)"

definition table_order :: "(pystr \<times> json) list \<Rightarrow> (pystr \<times> pystr) list \<Rightarrow> pystr list" where
  "table_order results all_pairs =
     first_seen [] (concat (map (\<lambda>hr. links_of_host (fst hr) all_pairs) results))"


section \<open>What the aggregator reads, in the words of the specification\<close>

text \<open>An observation \<open>[status, latency]\<close> as the parser returns it, and the latencies
  of the successful ones.\<close>

definition obs_json :: "json \<times> json \<Rightarrow> json" where
  "obs_json ob = JArr [fst ob, snd ob]"

definition ok_samples :: "(json \<times> json) list \<Rightarrow> json list" where
  "ok_samples obss = map snd (filter (\<lambda>ob. fst ob = JStr (ustr ''OK'')) obss)"

text \<open>\<open>node_reads results obs_of node\<close>: the observations \<open>obs_of node\<close> are what the
  raw result offers for the node. Either the node's entry list starts with a list that
  begins with these two-item observations, followed by nothing or by an observation that
  cannot be unpacked into two items; or there are no observations, because the node is
  absent, its entry list is empty or not a list, or its first entry cannot be iterated.\<close>

definition node_reads :: "json \<Rightarrow> (pystr \<Rightarrow> (json \<times> json) list) \<Rightarrow> pystr \<Rightarrow> bool" where
  "node_reads results obs_of node =
     (\<exists>entries. results_get results node = Inr entries \<and>
        ((\<exists>rest more. entries = JArr (JArr (map obs_json (obs_of node) @ rest) # more)
            \<and> (rest = [] \<or> (\<exists>e. unpack2 (hd rest) = Inl e)))
         \<or> (obs_of node = []
            \<and> ((\<exists>e. index0 entries = Inl e)
               \<or> (\<exists>first e. index0 entries = Inr first \<and> py_iter first = Inl e)))))"

definition country_samples :: "(pystr \<Rightarrow> (json \<times> json) list) \<Rightarrow> pystr list \<Rightarrow> json list" where
  "country_samples obs_of nodes = concat (map (\<lambda>n. ok_samples (obs_of n)) nodes)"

text \<open>The value of a numeric sample, and the arithmetic mean of a list of samples,
  \<open>+infinity\<close> for the empty list.\<close>

fun num :: "json \<Rightarrow> real" where
  "num (JInt i) = real_of_int i"
| "num (JFloat r) = r"
| "num (JBool b) = (if b then 1 else 0)"
| "num _ = 0"

fun is_number :: "json \<Rightarrow> bool" where
  "is_number (JInt i) = True"
| "is_number (JFloat r) = True"
| "is_number (JBool b) = True"
| "is_number _ = False"

definition arithmetic_mean :: "json list \<Rightarrow> latency" where
  "arithmetic_mean xs =
     (if xs = [] then Infinite else Finite (sum_list (map num xs) / real (length xs)))"

text \<open>The samples are numbers that double arithmetic sums and averages without
  rounding: every sample, every partial sum from the left and the mean are doubles.
  \<open>exact_sum rnd s xs\<close> says so for the samples \<open>xs\<close> added to the partial sum \<open>s\<close>.\<close>

fun exact_sum :: "rounding \<Rightarrow> real \<Rightarrow> json list \<Rightarrow> bool" where
  "exact_sum rnd s [] = (rnd s = Finite s)"
| "exact_sum rnd s (x # xs) =
     (is_number x \<and> rnd s = Finite s \<and> rnd (num x) = Finite (num x)
      \<and> exact_sum rnd (s + num x) xs)"

definition exact_mean :: "rounding \<Rightarrow> json list \<Rightarrow> bool" where
  "exact_mean rnd xs =
     (xs = [] \<or>
      (exact_sum rnd 0 xs
       \<and> rnd (sum_list (map num xs) / real (length xs))
           = Finite (sum_list (map num xs) / real (length xs))))"

text \<open>The table of the countries' means as Python computes them, rounding included:
  \<open>sum(samples) / len(samples)\<close> country by country, the first exception ending the
  computation.\<close>

fun country_means ::
  "rounding \<Rightarrow> (pystr \<times> json list) list \<Rightarrow> py_error + (pystr \<times> latency) list" where
  "country_means rnd [] = Inr []"
| "country_means rnd ((country, samples) # rest) =
     (case mean_latency rnd samples of
        Inl e \<Rightarrow> Inl e
      | Inr lat \<Rightarrow>
          (case country_means rnd rest of
             Inl e \<Rightarrow> Inl e
           | Inr d \<Rightarrow> Inr ((country, lat) # d)))"

text \<open>A running sum that is finite and has the value \<open>s\<close>.\<close>

fun holds_value :: "pynum \<Rightarrow> real \<Rightarrow> bool" where
  "holds_value (PInt a) s = (real_of_int a = s)"
| "holds_value (PFloat (Finite f)) s = (f = s)"
| "holds_value (PFloat _) s = False"


section \<open>Latency prober: \<open>run_ping_once\<close>\<close>

text \<open>The probing service is outside the program: what a \<open>client.get\<close> gives back is
  read from \<open>net\<close>, by submission attempt and by poll. A call either raises (timeout,
  connection error) or returns a response with a status code and a body;
  \<open>Response.json()\<close> raises when the body is no JSON text (\<open>None\<close>). Sleeps, log lines
  and the semaphore do not change the result and are left out.\<close>

datatype reply = Raised | Response nat "json option"

record net =
  submit :: "nat \<Rightarrow> reply"
  poll :: "nat \<Rightarrow> json \<Rightarrow> nat \<Rightarrow> reply"

text \<open>Python's truth value of a JSON value (\<open>if not req_id\<close>, \<open>and r2.json()\<close>).\<close>

fun py_truthy :: "json \<Rightarrow> bool" where
  "py_truthy JNull = False"
| "py_truthy (JBool b) = b"
| "py_truthy (JInt i) = (i \<noteq> 0)"
| "py_truthy (JFloat r) = (r \<noteq> 0)"
| "py_truthy (JStr s) = (s \<noteq> [])"
| "py_truthy (JArr xs) = (xs \<noteq> [])"
| "py_truthy (JObj kvs) = (kvs \<noteq> [])"

datatype poll_outcome = Got json | Exhausted | PollRaised

text \<open>\<open>for _ in range(10)\<close>: poll \<open>i\<close> is the next one, \<open>k\<close> polls are left. An
  exception (from the call or from \<open>r2.json()\<close>) leaves the loop for the outer
  \<open>except\<close>.\<close>

fun poll_loop :: "(nat \<Rightarrow> reply) \<Rightarrow> nat \<Rightarrow> nat \<Rightarrow> poll_outcome" where
  "poll_loop p i 0 = Exhausted"
| "poll_loop p i (Suc k) =
     (case p i of
        Raised \<Rightarrow> PollRaised
      | Response st body \<Rightarrow>
          (if st = 200 then
             (case body of
                None \<Rightarrow> PollRaised
              | Some j \<Rightarrow> (if py_truthy j then Got j else poll_loop p (Suc i) k))
           else poll_loop p (Suc i) k))"

text \<open>\<open>for attempt in range(1, retries + 1)\<close>: attempt \<open>a\<close> is the next one, \<open>r\<close>
  attempts are left. \<open>raise_for_status\<close> raises for every status outside 2xx; the 503
  test comes first. Every exception inside the \<open>try\<close> (of the calls, of
  \<open>raise_for_status\<close>, of \<open>json()\<close>, of \<open>.get\<close> on a body that is no dict) goes
  to the next attempt; a missing or falsy request id returns the empty result at
  once, and so does a round of ten polls without a result (\<open>break\<close>).\<close>

fun attempts :: "net \<Rightarrow> nat \<Rightarrow> nat \<Rightarrow> json" where
  "attempts n a 0 = JObj []"
| "attempts n a (Suc r) =
     (case submit n a of
        Raised \<Rightarrow> attempts n (Suc a) r
      | Response st body \<Rightarrow>
          (if st = 503 then attempts n (Suc a) r
           else if \<not> (200 \<le> st \<and> st < 300) then attempts n (Suc a) r
           else
             (case body of
                None \<Rightarrow> attempts n (Suc a) r
              | Some (JObj kvs) \<Rightarrow>
                  (let req_id = (case map_of kvs (ustr ''request_id'') of
                                   None \<Rightarrow> JNull | Some v \<Rightarrow> v)
                   in if \<not> py_truthy req_id then JObj []
                      else
                        (case poll_loop (poll n a req_id) 1 10 of
                           Got j \<Rightarrow> j
                         | Exhausted \<Rightarrow> JObj []
                         | PollRaised \<Rightarrow> attempts n (Suc a) r))
              | Some _ \<Rightarrow> attempts n (Suc a) r)))"

definition run_ping_once :: "net \<Rightarrow> pystr \<Rightarrow> nat \<Rightarrow> json" where
  "run_ping_once n host retries = (if host = [] then JObj [] else attempts n 1 retries)"

text \<open>A poll that neither returns a result nor raises.\<close>

fun poll_idle :: "reply \<Rightarrow> bool" where
  "poll_idle Raised = False"
| "poll_idle (Response st body) =
     (st \<noteq> 200 \<or> (case body of None \<Rightarrow> False | Some j \<Rightarrow> \<not> py_truthy j))"

fun is_503 :: "reply \<Rightarrow> bool" where
  "is_503 (Response st body) = (st = 503)"
| "is_503 Raised = False"

section \<open>Strings, base64 and UTF-8\<close>

text \<open>\<open>sub in s\<close> for strings.\<close>

fun substring_in :: "pystr \<Rightarrow> pystr \<Rightarrow> bool" where
  "substring_in sub [] = (sub = [])"
| "substring_in sub (c # cs) = (prefix sub (c # cs) \<or> substring_in sub cs)"

text \<open>\<open>str.strip()\<close> removes the characters for which \<open>str.isspace()\<close> holds from both
  ends.\<close>

definition py_isspace :: "nat \<Rightarrow> bool" where
  "py_isspace c =
     ((9 \<le> c \<and> c \<le> 13) \<or> (28 \<le> c \<and> c \<le> 32) \<or> c = 133 \<or> c = 160 \<or> c = 5760
      \<or> (8192 \<le> c \<and> c \<le> 8202) \<or> c = 8232 \<or> c = 8233 \<or> c = 8239 \<or> c = 8287
      \<or> c = 12288)"

definition strip :: "pystr \<Rightarrow> pystr" where
  "strip s = rev (dropWhile py_isspace (rev (dropWhile py_isspace s)))"

text \<open>The value of a character of the standard base64 alphabet (\<open>A-Z\<close>, \<open>a-z\<close>,
  \<open>0-9\<close>, \<open>+\<close>, \<open>/\<close>), and the character of a value.\<close>

definition b64_value :: "nat \<Rightarrow> nat option" where
  "b64_value c =
     (if 65 \<le> c \<and> c \<le> 90 then Some (c - 65)
      else if 97 \<le> c \<and> c \<le> 122 then Some (c - 71)
      else if 48 \<le> c \<and> c \<le> 57 then Some (c + 4)
      else if c = 43 then Some 62
      else if c = 47 then Some 63
      else None)"

definition b64_char :: "nat \<Rightarrow> nat" where
  "b64_char v =
     (if v < 26 then v + 65
      else if v < 52 then v + 71
      else if v < 62 then v - 4
      else if v = 62 then 43
      else 47)"

text \<open>\<open>binascii.a2b_base64\<close> as \<open>base64.b64decode\<close> calls it (not in strict mode). The
  loop goes through the characters with the position in the current group of four
  (\<open>quad_pos\<close>), the bits left over from the last character (\<open>leftchar\<close>) and the number
  of \<open>=\<close> seen since the last data character (\<open>pads\<close>). A character outside the
  alphabet is skipped; a \<open>=\<close> that completes a group started by two or three data
  characters ends the decoding and the rest of the input is not read; any other \<open>=\<close> is
  skipped. A last group of one, two or three data characters without its padding is an
  error (\<open>binascii.Error\<close>).\<close>

fun a2b_base64_loop :: "nat list \<Rightarrow> nat \<Rightarrow> nat \<Rightarrow> nat \<Rightarrow> bytes \<Rightarrow> py_error + bytes" where
  "a2b_base64_loop [] quad_pos leftchar pads out =
     (if quad_pos = 0 then Inr out else Inl BinasciiError)"
| "a2b_base64_loop (c # cs) quad_pos leftchar pads out =
     (if c = 61 then
        (if 2 \<le> quad_pos \<and> 4 \<le> quad_pos + (pads + 1) then Inr out
         else a2b_base64_loop cs quad_pos leftchar
                (if 2 \<le> quad_pos then pads + 1 else pads) out)
      else
        (case b64_value c of
           None \<Rightarrow> a2b_base64_loop cs quad_pos leftchar pads out
         | Some v \<Rightarrow>
             (if quad_pos = 0 then a2b_base64_loop cs 1 v 0 out
              else if quad_pos = 1 then
                a2b_base64_loop cs 2 (v mod 16) 0 (out @ [leftchar * 4 + v div 16])
              else if quad_pos = 2 then
                a2b_base64_loop cs 3 (v mod 4) 0 (out @ [leftchar * 16 + v div 4])
              else a2b_base64_loop cs 0 0 0 (out @ [leftchar * 64 + v]))))"

definition a2b_base64 :: "nat list \<Rightarrow> py_error + bytes" where
  "a2b_base64 cs = a2b_base64_loop cs 0 0 0 []"

text \<open>\<open>bytes.decode(errors="ignore")\<close>: the UTF-8 decoder, which drops what it cannot
  decode. A byte that cannot start a sequence is dropped alone; of a sequence broken by a
  byte that cannot continue it, the bytes before that byte are dropped; a sequence cut
  off by the end of the data is dropped. Overlong forms and surrogates are not valid.\<close>

definition is_continuation :: "nat \<Rightarrow> bool" where
  "is_continuation b = (128 \<le> b \<and> b < 192)"

fun utf8_decode_ignore :: "bytes \<Rightarrow> pystr" where
  "utf8_decode_ignore [] = []"
| "utf8_decode_ignore (b # bs) =
     (if b < 128 then b # utf8_decode_ignore bs
      else if b < 194 then utf8_decode_ignore bs
      else if b < 224 then
        (case bs of
           [] \<Rightarrow> []
         | b2 # r2 \<Rightarrow>
             if is_continuation b2
             then ((b - 192) * 64 + (b2 - 128)) # utf8_decode_ignore r2
             else utf8_decode_ignore bs)
      else if b < 240 then
        (case bs of
           [] \<Rightarrow> []
         | b2 # r2 \<Rightarrow>
             if \<not> is_continuation b2 \<or> (if b2 < 160 then b = 224 else b = 237)
             then utf8_decode_ignore bs
             else
               (case r2 of
                  [] \<Rightarrow> []
                | b3 # r3 \<Rightarrow>
                    if is_continuation b3
                    then ((b - 224) * 4096 + (b2 - 128) * 64 + (b3 - 128))
                           # utf8_decode_ignore r3
                    else utf8_decode_ignore r2))
      else if b < 245 then
        (case bs of
           [] \<Rightarrow> []
         | b2 # r2 \<Rightarrow>
             if \<not> is_continuation b2 \<or> (if b2 < 144 then b = 240 else b = 244)
             then utf8_decode_ignore bs
             else
               (case r2 of
                  [] \<Rightarrow> []
                | b3 # r3 \<Rightarrow>
                    if \<not> is_continuation b3 then utf8_decode_ignore r2
                    else
                      (case r3 of
                         [] \<Rightarrow> []
                       | b4 # r4 \<Rightarrow>
                           if is_continuation b4
                           then ((b - 240) * 262144 + (b2 - 128) * 4096
                                   + (b3 - 128) * 64 + (b4 - 128))
                                  # utf8_decode_ignore r4
                           else utf8_decode_ignore r3)))
      else utf8_decode_ignore bs)"

text \<open>\<open>b64_decode\<close>. \<open>base64.b64decode\<close> of a \<open>str\<close> first encodes it as ASCII and
  raises \<open>ValueError\<close> for any other character.\<close>

definition b64_decode :: "pystr \<Rightarrow> py_error + pystr" where
  "b64_decode s =
     (let pad = replicate ((4 - length s mod 4) mod 4) 61 in
      if list_ex (\<lambda>c. 128 \<le> c) (s @ pad) then Inl ValueError
      else (case a2b_base64 (s @ pad) of
              Inl e \<Rightarrow> Inl e
            | Inr bs \<Rightarrow> Inr (utf8_decode_ignore bs)))"

section \<open>Collector: the body of a subscription\<close>

text \<open>\<open>maybe_base64_decode\<close>: every exception of the decoding is swallowed.\<close>

definition maybe_base64_decode :: "pystr \<Rightarrow> pystr" where
  "maybe_base64_decode s =
     (case b64_decode (strip s) of
        Inl e \<Rightarrow> strip s
      | Inr decoded \<Rightarrow>
          if substring_in (ustr ''://'') decoded then strip decoded else strip s)"

text \<open>\<open>str.encode()\<close>: UTF-8; a surrogate cannot be encoded (\<open>UnicodeEncodeError\<close>),
  and neither can a number beyond the code points, which no \<open>str\<close> holds.\<close>

definition utf8_encode_char :: "nat \<Rightarrow> py_error + bytes" where
  "utf8_encode_char c =
     (if c < 128 then Inr [c]
      else if c < 2048 then Inr [192 + c div 64, 128 + c mod 64]
      else if 55296 \<le> c \<and> c < 57344 then Inl UnicodeEncodeError
      else if c < 65536 then Inr [224 + c div 4096, 128 + (c div 64) mod 64, 128 + c mod 64]
      else if c < 1114112 then
        Inr [240 + c div 262144, 128 + (c div 4096) mod 64, 128 + (c div 64) mod 64,
             128 + c mod 64]
      else Inl UnicodeEncodeError)"

fun utf8_encode :: "pystr \<Rightarrow> py_error + bytes" where
  "utf8_encode [] = Inr []"
| "utf8_encode (c # cs) =
     (case utf8_encode_char c of
        Inl e \<Rightarrow> Inl e
      | Inr bs \<Rightarrow> (case utf8_encode cs of Inl e \<Rightarrow> Inl e | Inr rest \<Rightarrow> Inr (bs @ rest)))"

text \<open>\<open>base64.b64encode\<close>: three bytes give four characters; a last group of one or two
  bytes is padded with \<open>=\<close>.\<close>

fun b2a_base64 :: "bytes \<Rightarrow> nat list" where
  "b2a_base64 [] = []"
| "b2a_base64 [b1] = [b64_char (b1 div 4), b64_char ((b1 mod 4) * 16), 61, 61]"
| "b2a_base64 [b1, b2] =
     [b64_char (b1 div 4), b64_char ((b1 mod 4) * 16 + b2 div 16),
      b64_char ((b2 mod 16) * 4), 61]"
| "b2a_base64 (b1 # b2 # b3 # rest) =
     [b64_char (b1 div 4), b64_char ((b1 mod 4) * 16 + b2 div 16),
      b64_char ((b2 mod 16) * 4 + b3 div 64), b64_char (b3 mod 64)] @ b2a_base64 rest"

text \<open>\<open>b64_encode\<close>: \<open>base64.b64encode(s.encode()).decode()\<close>.\<close>

definition b64_encode :: "pystr \<Rightarrow> py_error + pystr" where
  "b64_encode s = (case utf8_encode s of Inl e \<Rightarrow> Inl e | Inr bs \<Rightarrow> Inr (b2a_base64 bs))"

text \<open>\<open>s.split(sep, 1)\<close> for a non-empty separator (every separator of the program is a
  literal): \<open>None\<close> when \<open>sep\<close> does not occur in \<open>s\<close> and the result is \<open>[s]\<close>, else
  the parts before and after the first occurrence.\<close>

fun split_once :: "pystr \<Rightarrow> pystr \<Rightarrow> (pystr \<times> pystr) option" where
  "split_once sep [] = None"
| "split_once sep (c # cs) =
     (if prefix sep (c # cs) then Some ([], drop (length sep) (c # cs))
      else (case split_once sep cs of
              None \<Rightarrow> None
            | Some (a, b) \<Rightarrow> Some (c # a, b)))"

text \<open>\<open>a, b = s.split(sep, 1)\<close> raises \<open>ValueError\<close> when there is one part only;
  \<open>s.split(sep, 1)[1]\<close> raises \<open>IndexError\<close>.\<close>

definition split_pair :: "pystr \<Rightarrow> pystr \<Rightarrow> py_error + (pystr \<times> pystr)" where
  "split_pair sep s = (case split_once sep s of None \<Rightarrow> Inl ValueError | Some p \<Rightarrow> Inr p)"

definition split_second :: "pystr \<Rightarrow> pystr \<Rightarrow> py_error + pystr" where
  "split_second sep s =
     (case split_once sep s of None \<Rightarrow> Inl IndexError | Some p \<Rightarrow> Inr (snd p))"

text \<open>\<open>urllib.parse.quote(tag)\<close>: the UTF-8 bytes of the string, each one kept when it is
  a letter, a digit or one of \<open>_.-~/\<close> and written \<open>%XX\<close> otherwise.\<close>

definition quote_safe :: "nat \<Rightarrow> bool" where
  "quote_safe b =
     ((65 \<le> b \<and> b \<le> 90) \<or> (97 \<le> b \<and> b \<le> 122) \<or> (48 \<le> b \<and> b \<le> 57)
      \<or> b = 95 \<or> b = 46 \<or> b = 45 \<or> b = 126 \<or> b = 47)"

definition hex_digit :: "nat \<Rightarrow> nat" where
  "hex_digit d = (if d < 10 then 48 + d else 55 + d)"

definition quote_byte :: "nat \<Rightarrow> pystr" where
  "quote_byte b = (if quote_safe b then [b] else [37, hex_digit (b div 16), hex_digit (b mod 16)])"

definition quote :: "pystr \<Rightarrow> py_error + pystr" where
  "quote s = (case utf8_encode s of Inl e \<Rightarrow> Inl e | Inr bs \<Rightarrow> Inr (concat (map quote_byte bs)))"

section \<open>Renamer: \<open>rename_shadowsocks\<close>\<close>

text \<open>The credentials \<open>method, pwd\<close> of the part of the link after \<open>ss://\<close> and before
  \<open>#\<close>. With an \<open>@\<close>, the part before it is decoded as base64 first; when that raises, or
  the decoded text has no colon to split at, the inner \<open>except\<close> splits the part as it
  stands.\<close>

definition ss_credentials :: "pystr \<Rightarrow> py_error + (pystr \<times> pystr)" where
  "ss_credentials body =
     (case split_once (ustr ''@'') body of
        Some (creds, rest) \<Rightarrow>
          (case b64_decode creds of
             Inl e \<Rightarrow> split_pair (ustr '':'') creds
           | Inr decoded \<Rightarrow>
               (case split_pair (ustr '':'') decoded of
                  Inl e \<Rightarrow> split_pair (ustr '':'') creds
                | Inr p \<Rightarrow> Inr p))
      | None \<Rightarrow>
          (case b64_decode body of
             Inl e \<Rightarrow> Inl e
           | Inr decoded \<Rightarrow> split_pair (ustr '':'') decoded))"

text \<open>The body of the \<open>try\<close> of \<open>rename_shadowsocks\<close>, and the function: any exception
  returns the link.\<close>

definition rename_shadowsocks_try :: "pystr \<Rightarrow> pystr \<Rightarrow> pystr \<Rightarrow> pystr \<Rightarrow> py_error + pystr" where
  "rename_shadowsocks_try link ip port tag =
     (case split_second (ustr ''ss://'') link of
        Inl e \<Rightarrow> Inl e
      | Inr body0 \<Rightarrow>
          (let body = (case split_once (ustr ''#'') body0 of
                         None \<Rightarrow> body0
                       | Some (before, after) \<Rightarrow> before)
           in case ss_credentials body of
                Inl e \<Rightarrow> Inl e
              | Inr (method, pwd) \<Rightarrow>
                  (case b64_encode (method @ ustr '':'' @ pwd) of
                     Inl e \<Rightarrow> Inl e
                   | Inr new_creds \<Rightarrow>
                       (case quote tag of
                          Inl e \<Rightarrow> Inl e
                        | Inr qtag \<Rightarrow>
                            Inr (ustr ''ss://'' @ new_creds @ ustr ''@'' @ ip @ ustr '':''
                                   @ port @ ustr ''#'' @ qtag)))))"

definition rename_shadowsocks :: "pystr \<Rightarrow> pystr \<Rightarrow> pystr \<Rightarrow> pystr \<Rightarrow> pystr" where
  "rename_shadowsocks link ip port tag =
     (case rename_shadowsocks_try link ip port tag of Inl e \<Rightarrow> link | Inr out \<Rightarrow> out)"

section \<open>Library and platform\<close>

text \<open>
  The functions of the standard library, of \<open>httpx\<close> and of the platform whose results
  the program only passes on are parameters of the model, collected in \<open>lib\<close>: the
  statements below hold whatever these functions return. \<open>json_loads\<close> and
  \<open>json_dumps\<close> are \<open>json.loads\<close> and \<open>json.dumps\<close>; \<open>format_float\<close> and
  \<open>format_container\<close> are \<open>str()\<close> of a float and of a list or dict;
  \<open>decimal_digit\<close> is the table of the decimal digits beyond ASCII; \<open>re_sub\<close> is
  \<open>re.sub(pattern, repl, string)\<close>; \<open>urlsplit_netloc\<close> is \<open>urlsplit(url).netloc\<close>;
  \<open>str_lower\<close>, \<open>str_upper\<close> and \<open>str_isalpha\<close> are the Unicode-aware methods of
  \<open>str\<close>; \<open>gethostbyname\<close> is the resolver, \<open>ipwhois\<close> the answer of the geolocation
  service for an address, and \<open>randint n\<close> the \<open>n\<close>-th number drawn by
  \<open>random.randint(100000, 999999)\<close>.
\<close>

datatype dns_answer = Resolved pystr | Gaierror | DnsError py_error

record lib =
  json_loads :: "pystr \<Rightarrow> py_error + json"
  json_dumps :: "json \<Rightarrow> py_error + pystr"
  format_float :: "real \<Rightarrow> pystr"
  format_container :: "json \<Rightarrow> pystr"
  decimal_digit :: "nat \<Rightarrow> nat option"
  re_sub :: "pystr \<Rightarrow> pystr \<Rightarrow> pystr \<Rightarrow> py_error + pystr"
  urlsplit_netloc :: "pystr \<Rightarrow> py_error + pystr"
  str_lower :: "pystr \<Rightarrow> pystr"
  str_upper :: "pystr \<Rightarrow> pystr"
  str_isalpha :: "pystr \<Rightarrow> bool"
  gethostbyname :: "pystr \<Rightarrow> dns_answer"
  ipwhois :: "pystr \<Rightarrow> reply"
  randint :: "nat \<Rightarrow> nat"

text \<open>\<open>str(n)\<close> for an integer.\<close>

fun show_nat :: "nat \<Rightarrow> pystr" where
  "show_nat n = (if n < 10 then [48 + n] else show_nat (n div 10) @ [48 + n mod 10])"

declare show_nat.simps [simp del]

definition show_int :: "int \<Rightarrow> pystr" where
  "show_int i = (if i < 0 then 45 # show_nat (nat (- i)) else show_nat (nat i))"

text \<open>\<open>f"{value}"\<close> for a value of a parsed JSON document.\<close>

fun py_str :: "lib \<Rightarrow> json \<Rightarrow> pystr" where
  "py_str L (JStr s) = s"
| "py_str L (JInt i) = show_int i"
| "py_str L JNull = ustr ''None''"
| "py_str L (JBool b) = (if b then ustr ''True'' else ustr ''False'')"
| "py_str L (JFloat r) = format_float L r"
| "py_str L v = format_container L v"

text \<open>\<open>int(s)\<close> for a string. Whitespace and decimal digits beyond ASCII are first
  turned into a blank and into ASCII digits, and any other character beyond ASCII makes
  the string invalid. What is left is: blanks (of C's \<open>isspace\<close>), an optional sign,
  digits with single underscores between them, blanks. Anything else raises
  \<open>ValueError\<close>.\<close>

definition is_digit :: "nat \<Rightarrow> bool" where
  "is_digit c = (48 \<le> c \<and> c \<le> 57)"

definition c_isspace :: "nat \<Rightarrow> bool" where
  "c_isspace c = ((9 \<le> c \<and> c \<le> 13) \<or> c = 32)"

definition to_ascii_digit :: "lib \<Rightarrow> nat \<Rightarrow> nat option" where
  "to_ascii_digit L c =
     (if c < 128 then Some c
      else if py_isspace c then Some 32
      else (case decimal_digit L c of None \<Rightarrow> None | Some d \<Rightarrow> Some (48 + d)))"

fun to_ascii_digits :: "lib \<Rightarrow> pystr \<Rightarrow> pystr option" where
  "to_ascii_digits L [] = Some []"
| "to_ascii_digits L (c # cs) =
     (case to_ascii_digit L c of
        None \<Rightarrow> None
      | Some a \<Rightarrow> (case to_ascii_digits L cs of None \<Rightarrow> None | Some as \<Rightarrow> Some (a # as)))"

fun parse_digits :: "nat \<Rightarrow> pystr \<Rightarrow> nat option" where
  "parse_digits acc [] = Some acc"
| "parse_digits acc [c] = (if is_digit c then Some (acc * 10 + (c - 48)) else None)"
| "parse_digits acc (c # d # ds) =
     (if is_digit c then parse_digits (acc * 10 + (c - 48)) (d # ds)
      else if c = 95 \<and> is_digit d then parse_digits (acc * 10 + (d - 48)) ds
      else None)"

definition parse_unsigned :: "pystr \<Rightarrow> nat option" where
  "parse_unsigned s =
     (case s of
        [] \<Rightarrow> None
      | c # cs \<Rightarrow> if is_digit c then parse_digits (c - 48) cs else None)"

definition py_int :: "lib \<Rightarrow> pystr \<Rightarrow> py_error + int" where
  "py_int L s =
     (case to_ascii_digits L s of
        None \<Rightarrow> Inl ValueError
      | Some a \<Rightarrow>
          (let t = rev (dropWhile c_isspace (rev (dropWhile c_isspace a))) in
           case t of
             [] \<Rightarrow> Inl ValueError
           | c # cs \<Rightarrow>
               if c = 45 then
                 (case parse_unsigned cs of
                    None \<Rightarrow> Inl ValueError
                  | Some n \<Rightarrow> Inr (- int n))
               else if c = 43 then
                 (case parse_unsigned cs of
                    None \<Rightarrow> Inl ValueError
                  | Some n \<Rightarrow> Inr (int n))
               else
                 (case parse_unsigned t of
                    None \<Rightarrow> Inl ValueError
                  | Some n \<Rightarrow> Inr (int n))))"

text \<open>\<open>s.rsplit(sep, 1)\<close> for a one-character separator: the parts before and after
  the last occurrence.\<close>

definition rsplit_once :: "nat \<Rightarrow> pystr \<Rightarrow> (pystr \<times> pystr) option" where
  "rsplit_once c s =
     (case split_once [c] (rev s) of
        None \<Rightarrow> None
      | Some (a, b) \<Rightarrow> Some (rev b, rev a))"

section \<open>Parser: \<open>detect_protocol\<close> and \<open>extract_host\<close>\<close>

text \<open>\<open>re.match(r"([a-z0-9+.-]+)://", s)\<close>: the longest run of scheme characters at the
  start, which must not be empty and must be followed by \<open>://\<close>. (No shorter run can
  match, since the character after it would be a scheme character.)\<close>

definition is_scheme_char :: "nat \<Rightarrow> bool" where
  "is_scheme_char c =
     ((97 \<le> c \<and> c \<le> 122) \<or> (48 \<le> c \<and> c \<le> 57) \<or> c = 43 \<or> c = 46 \<or> c = 45)"

definition match_scheme :: "pystr \<Rightarrow> pystr option" where
  "match_scheme s =
     (let run = takeWhile is_scheme_char s in
      if run \<noteq> [] \<and> prefix (ustr ''://'') (dropWhile is_scheme_char s) then Some run
      else None)"

definition detect_protocol :: "lib \<Rightarrow> pystr \<Rightarrow> pystr" where
  "detect_protocol L link =
     (case match_scheme (str_lower L (strip link)) of
        None \<Rightarrow> ustr ''unknown''
      | Some proto \<Rightarrow> if proto = ustr ''ss'' then ustr ''shadowsocks'' else proto)"

text \<open>\<open>cfg.get(key, '')\<close>: only a dict has the method.\<close>

definition dict_get :: "json \<Rightarrow> pystr \<Rightarrow> json \<Rightarrow> py_error + json" where
  "dict_get cfg key dflt =
     (case cfg of
        JObj kvs \<Rightarrow> Inr (case map_of kvs key of None \<Rightarrow> dflt | Some v \<Rightarrow> v)
      | _ \<Rightarrow> Inl AttributeError)"

text \<open>The body of the \<open>try\<close> of \<open>extract_host\<close>, and the function: after an exception it
  returns the empty string.\<close>

definition extract_host_try :: "lib \<Rightarrow> pystr \<Rightarrow> pystr \<Rightarrow> py_error + pystr" where
  "extract_host_try L link proto =
     (if proto = ustr ''vmess'' then
        (case b64_decode (drop 8 link) of
           Inl e \<Rightarrow> Inl e
         | Inr text \<Rightarrow>
             (case json_loads L text of
                Inl e \<Rightarrow> Inl e
              | Inr cfg \<Rightarrow>
                  (case dict_get cfg (ustr ''add'') (JStr []) of
                     Inl e \<Rightarrow> Inl e
                   | Inr add \<Rightarrow>
                       (case dict_get cfg (ustr ''port'') (JStr []) of
                          Inl e \<Rightarrow> Inl e
                        | Inr port \<Rightarrow> Inr (py_str L add @ ustr '':'' @ py_str L port)))))
      else
        (case urlsplit_netloc L link of
           Inl e \<Rightarrow> Inl e
         | Inr netloc \<Rightarrow>
             if proto = ustr ''shadowsocks'' then
               (case split_once (ustr ''@'') netloc of
                  None \<Rightarrow> Inr netloc
                | Some (before, after) \<Rightarrow> Inr after)
             else Inr netloc))"

definition extract_host :: "lib \<Rightarrow> pystr \<Rightarrow> pystr \<Rightarrow> pystr" where
  "extract_host L link proto =
     (case extract_host_try L link proto of Inl e \<Rightarrow> [] | Inr host_port \<Rightarrow> host_port)"

section \<open>Renamer: \<open>rename_vmess\<close>, \<open>rename_generic\<close> and \<open>rename_line\<close>\<close>

text \<open>\<open>cfg.update({"add": ip, "port": int(port), "ps": tag})\<close>: the method is looked up
  first, and only a dict has it; then the argument is evaluated, \<open>int(port)\<close> with it. A
  key already present keeps its place, a new one goes to the end.\<close>

definition vmess_update :: "lib \<Rightarrow> json \<Rightarrow> pystr \<Rightarrow> pystr \<Rightarrow> pystr \<Rightarrow> py_error + json" where
  "vmess_update L cfg ip port tag =
     (case cfg of
        JObj kvs \<Rightarrow>
          (case py_int L port of
             Inl e \<Rightarrow> Inl e
           | Inr n \<Rightarrow>
               Inr (JObj (AList.update (ustr ''ps'') (JStr tag)
                           (AList.update (ustr ''port'') (JInt n)
                             (AList.update (ustr ''add'') (JStr ip) kvs)))))
      | _ \<Rightarrow> Inl AttributeError)"

text \<open>The body of the \<open>try\<close> of \<open>rename_vmess\<close>, and the function: any exception returns
  the link.\<close>

definition rename_vmess_try :: "lib \<Rightarrow> pystr \<Rightarrow> pystr \<Rightarrow> pystr \<Rightarrow> pystr \<Rightarrow> py_error + pystr" where
  "rename_vmess_try L link ip port tag =
     (case split_second (ustr ''://'') link of
        Inl e \<Rightarrow> Inl e
      | Inr raw \<Rightarrow>
          (case b64_decode raw of
             Inl e \<Rightarrow> Inl e
           | Inr text \<Rightarrow>
               (case json_loads L text of
                  Inl e \<Rightarrow> Inl e
                | Inr cfg \<Rightarrow>
                    (case vmess_update L cfg ip port tag of
                       Inl e \<Rightarrow> Inl e
                     | Inr cfg' \<Rightarrow>
                         (case json_dumps L cfg' of
                            Inl e \<Rightarrow> Inl e
                          | Inr dumped \<Rightarrow>
                              (case b64_encode dumped of
                                 Inl e \<Rightarrow> Inl e
                               | Inr encoded \<Rightarrow>
                                   (case quote tag of
                                      Inl e \<Rightarrow> Inl e
                                    | Inr qtag \<Rightarrow>
                                        Inr (ustr ''vmess://'' @ encoded @ ustr ''#''
                                               @ qtag))))))))"

definition rename_vmess :: "lib \<Rightarrow> pystr \<Rightarrow> pystr \<Rightarrow> pystr \<Rightarrow> pystr \<Rightarrow> pystr" where
  "rename_vmess L link ip port tag =
     (case rename_vmess_try L link ip port tag of Inl e \<Rightarrow> link | Inr out \<Rightarrow> out)"

text \<open>The patterns of \<open>rename_generic\<close>: \<open>@[^:/#]+(:\d+)?\<close>, \<open>://[^:/#]+(:\d+)?\<close> and
  \<open>#.*$\<close>.\<close>

definition at_host_pattern :: pystr where
  "at_host_pattern = ustr ''@[^:/#]+(:'' @ [92] @ ustr ''d+)?''"

definition scheme_host_pattern :: pystr where
  "scheme_host_pattern = ustr ''://[^:/#]+(:'' @ [92] @ ustr ''d+)?''"

definition fragment_pattern :: pystr where
  "fragment_pattern = ustr ''#.*$''"

text \<open>The body of the \<open>try\<close> of \<open>rename_generic\<close>, and the function: any exception
  returns the link. The replacement is a template of \<open>re.sub\<close>.\<close>

definition rename_generic_try :: "lib \<Rightarrow> pystr \<Rightarrow> pystr \<Rightarrow> pystr \<Rightarrow> pystr \<Rightarrow> py_error + pystr" where
  "rename_generic_try L link ip port tag =
     (case (if substring_in (ustr ''@'') link
            then re_sub L at_host_pattern (ustr ''@'' @ ip @ ustr '':'' @ port) link
            else re_sub L scheme_host_pattern (ustr ''://'' @ ip @ ustr '':'' @ port) link) of
        Inl e \<Rightarrow> Inl e
      | Inr out \<Rightarrow>
          if substring_in (ustr ''#'') out
          then (case quote tag of
                  Inl e \<Rightarrow> Inl e
                | Inr qtag \<Rightarrow> re_sub L fragment_pattern (ustr ''#'' @ qtag) out)
          else (case quote tag of
                  Inl e \<Rightarrow> Inl e
                | Inr qtag \<Rightarrow> Inr (out @ ustr ''#'' @ qtag)))"

definition rename_generic :: "lib \<Rightarrow> pystr \<Rightarrow> pystr \<Rightarrow> pystr \<Rightarrow> pystr \<Rightarrow> pystr" where
  "rename_generic L link ip port tag =
     (case rename_generic_try L link ip port tag of Inl e \<Rightarrow> link | Inr out \<Rightarrow> out)"

text \<open>\<open>get_country_by_ip\<close> with its cache \<open>geo_cache\<close>. Whatever goes wrong with the
  request or its answer (an exception of the call, a body that is no JSON, no dict, or
  whose \<open>country_code\<close> is no string) is caught, and the address is cached as
  \<open>unknown\<close>, as it is after a status other than 200.\<close>

definition country_code_of :: "lib \<Rightarrow> reply \<Rightarrow> pystr option" where
  "country_code_of L r =
     (case r of
        Raised \<Rightarrow> None
      | Response st body \<Rightarrow>
          if st = 200 then
            (case body of
               Some (JObj kvs) \<Rightarrow>
                 (case (case map_of kvs (ustr ''country_code'') of
                          None \<Rightarrow> JStr (ustr ''unknown'')
                        | Some v \<Rightarrow> v) of
                    JStr s \<Rightarrow> Some (str_lower L s)
                  | _ \<Rightarrow> None)
             | _ \<Rightarrow> None)
          else None)"

definition get_country_by_ip ::
  "lib \<Rightarrow> (pystr \<times> pystr) list \<Rightarrow> pystr \<Rightarrow> pystr \<times> (pystr \<times> pystr) list" where
  "get_country_by_ip L cache ip =
     (case map_of cache ip of
        Some code \<Rightarrow> (code, cache)
      | None \<Rightarrow>
          (case country_code_of L (ipwhois L ip) of
             Some code \<Rightarrow> (code, AList.update ip code cache)
           | None \<Rightarrow> (ustr ''unknown'', AList.update ip (ustr ''unknown'') cache)))"

text \<open>\<open>country_flag\<close>: the white flag (U+1F3F3 U+FE0F), or the two regional indicator
  letters; \<open>chr\<close> raises \<open>ValueError\<close> beyond the last code point.\<close>

definition white_flag :: pystr where
  "white_flag = [127987, 65039]"

definition py_chr :: "nat \<Rightarrow> py_error + nat" where
  "py_chr n = (if n < 1114112 then Inr n else Inl ValueError)"

definition country_flag :: "lib \<Rightarrow> pystr \<Rightarrow> py_error + pystr" where
  "country_flag L code =
     (if code = [] then Inr white_flag
      else
        (let c = str_upper L (strip code) in
         if c = ustr ''UNKNOWN'' \<or> length c \<noteq> 2 \<or> \<not> str_isalpha L c then Inr white_flag
         else
           (case py_chr (c ! 0 + 127397) of
              Inl e \<Rightarrow> Inl e
            | Inr f1 \<Rightarrow>
                (case py_chr (c ! 1 + 127397) of
                   Inl e \<Rightarrow> Inl e
                 | Inr f2 \<Rightarrow> Inr [f1, f2]))))"

text \<open>What \<open>rename_line\<close> changes: the cache of the geolocation and the number of random
  draws made so far.\<close>

record state =
  geo_cache :: "(pystr \<times> pystr) list"
  draws :: nat

text \<open>\<open>host, port = host_port.rsplit(":", 1)\<close>, or the default port.\<close>

definition host_and_port :: "pystr \<Rightarrow> pystr \<times> pystr" where
  "host_and_port host_port =
     (if substring_in (ustr '':'') host_port then
        (case rsplit_once 58 host_port of
           None \<Rightarrow> (host_port, ustr ''443'')
         | Some (host, port) \<Rightarrow> (host, port))
      else (host_port, ustr ''443''))"

text \<open>The \<open>try\<close> around \<open>socket.gethostbyname\<close> catches \<open>socket.gaierror\<close> only.\<close>

definition resolve :: "lib \<Rightarrow> pystr \<Rightarrow> py_error + pystr" where
  "resolve L host =
     (case gethostbyname L host of
        Resolved ip \<Rightarrow> Inr ip
      | Gaierror \<Rightarrow> Inr host
      | DnsError e \<Rightarrow> Inl e)"

definition rename_by_protocol ::
  "lib \<Rightarrow> pystr \<Rightarrow> pystr \<Rightarrow> pystr \<Rightarrow> pystr \<Rightarrow> pystr \<Rightarrow> pystr" where
  "rename_by_protocol L proto link ip port tag =
     (if proto = ustr ''vmess'' then rename_vmess L link ip port tag
      else if proto = ustr ''shadowsocks'' then rename_shadowsocks link ip port tag
      else rename_generic L link ip port tag)"

definition rename_line :: "lib \<Rightarrow> state \<Rightarrow> pystr \<Rightarrow> py_error + (pystr \<times> state)" where
  "rename_line L st link =
     (let proto = detect_protocol L link;
          host_port = extract_host L link proto
      in if host_port = [] then Inr (link, st)
         else
           (let (host, port) = host_and_port host_port in
            case resolve L host of
              Inl e \<Rightarrow> Inl e
            | Inr ip \<Rightarrow>
                (let (country, cache) = get_country_by_ip L (geo_cache st) ip in
                 case country_flag L country of
                   Inl e \<Rightarrow> Inl e
                 | Inr flag \<Rightarrow>
                     (let tag = flag @ ustr '' ShatalVPN '' @ show_nat (randint L (draws st))
                      in Inr (rename_by_protocol L proto link ip port tag,
                              \<lparr>geo_cache = cache, draws = Suc (draws st)\<rparr>)))))"

section \<open>Output: the files of a country\<close>

text \<open>\<open>os.path.join\<close> on POSIX, \<open>"\n".join(lines)\<close>, and \<open>save_to_file\<close> on a file system
  that maps a path to the text of the file; nothing is written for an empty list.
  Errors of the file system are outside the model.\<close>

definition path_join :: "pystr \<Rightarrow> pystr \<Rightarrow> pystr" where
  "path_join a b =
     (if prefix (ustr ''/'') b then b
      else if a = [] \<or> last a = 47 then a @ b
      else a @ ustr ''/'' @ b)"

fun join_lines :: "pystr list \<Rightarrow> pystr" where
  "join_lines [] = []"
| "join_lines [l] = l"
| "join_lines (l # m # ls) = l @ [10] @ join_lines (m # ls)"

text \<open>The lines of a text file: \<open>text.split("\n")\<close>.\<close>

fun split_on :: "nat \<Rightarrow> pystr \<Rightarrow> pystr list" where
  "split_on c [] = [[]]"
| "split_on c (x # xs) =
     (if x = c then [] # split_on c xs
      else (case split_on c xs of [] \<Rightarrow> [[x]] | l # ls \<Rightarrow> (x # l) # ls))"

definition file_lines :: "pystr \<Rightarrow> pystr list" where
  "file_lines text = split_on 10 text"

definition save_to_file ::
  "(pystr \<Rightarrow> pystr option) \<Rightarrow> pystr \<Rightarrow> pystr list \<Rightarrow> (pystr \<Rightarrow> pystr option)" where
  "save_to_file fs path lines = (if lines = [] then fs else fs(path \<mapsto> join_lines lines))"

text \<open>\<open>[rename_line(l) for l in links]\<close>.\<close>

fun rename_lines :: "lib \<Rightarrow> state \<Rightarrow> pystr list \<Rightarrow> py_error + (pystr list \<times> state)" where
  "rename_lines L st [] = Inr ([], st)"
| "rename_lines L st (l # ls) =
     (case rename_line L st l of
        Inl e \<Rightarrow> Inl e
      | Inr (r, st1) \<Rightarrow>
          (case rename_lines L st1 ls of
             Inl e \<Rightarrow> Inl e
           | Inr (rs, st2) \<Rightarrow> Inr (r # rs, st2)))"

text \<open>\<open>for proto, items in groups.items()\<close>: one file for each protocol of the
  country.\<close>

fun save_protocols ::
  "lib \<Rightarrow> state \<Rightarrow> (pystr \<Rightarrow> pystr option) \<Rightarrow> pystr \<Rightarrow> pystr list \<Rightarrow> pystr list
     \<Rightarrow> py_error + ((pystr \<Rightarrow> pystr option) \<times> state)" where
  "save_protocols L st fs dest_dir ranked [] = Inr (fs, st)"
| "save_protocols L st fs dest_dir ranked (proto # protos) =
     (case rename_lines L st (filter (\<lambda>l. detect_protocol L l = proto) ranked) of
        Inl e \<Rightarrow> Inl e
      | Inr (renamed, st1) \<Rightarrow>
          save_protocols L st1
            (save_to_file fs (path_join dest_dir (proto @ ustr ''.txt'')) renamed)
            dest_dir ranked protos)"

text \<open>The body of the loop \<open>for country, groups in categorized.items()\<close> from
  \<open>renamed_all\<close> on, for the ranked links (\<open>sorted_links\<close>) of the country and the protocols of its
  groups.\<close>

definition output_dir :: pystr where
  "output_dir = ustr ''configs''"

definition save_country ::
  "lib \<Rightarrow> state \<Rightarrow> (pystr \<Rightarrow> pystr option) \<Rightarrow> pystr \<Rightarrow> pystr list \<Rightarrow> pystr list
     \<Rightarrow> py_error + ((pystr \<Rightarrow> pystr option) \<times> state)" where
  "save_country L st fs country ranked protos =
     (case rename_lines L st ranked of
        Inl e \<Rightarrow> Inl e
      | Inr (renamed_all, st1) \<Rightarrow>
          (let dest_dir = path_join output_dir country in
           case save_protocols L st1 fs dest_dir ranked protos of
             Inl e \<Rightarrow> Inl e
           | Inr (fs1, st2) \<Rightarrow>
               Inr (save_to_file
                      (save_to_file fs1 (path_join dest_dir (ustr ''all.txt'')) renamed_all)
                      (path_join dest_dir (ustr ''light.txt'')) (take 30 renamed_all),
                    st2)))"

section \<open>A sample environment\<close>

text \<open>An environment to run the model in: a resolver and a geolocation service that know
  the host \<open>example.com\<close> at \<open>1.2.3.4\<close> in Germany, the library functions as they behave
  on the link \<open>trojan://example.com\<close> (\<open>urlsplit\<close>, \<open>re.sub\<close>) and on ASCII strings
  (\<open>lower\<close>, \<open>upper\<close>, \<open>isalpha\<close>), and a random draw of \<open>123456\<close>. On other links
  \<open>urlsplit\<close> raises, as it does on \<open>vless://[x\<close>.\<close>

definition sample_lib :: lib where
  "sample_lib =
     \<lparr>json_loads = (\<lambda>s. Inl JSONDecodeError),
      json_dumps = (\<lambda>j. Inl TypeError),
      format_float = (\<lambda>r. []),
      format_container = (\<lambda>j. []),
      decimal_digit = (\<lambda>c. None),
      re_sub = (\<lambda>p r s. if p = scheme_host_pattern \<and> s = ustr ''trojan://example.com''
                         then Inr (ustr ''trojan'' @ r) else Inl ReError),
      urlsplit_netloc = (\<lambda>s. if s = ustr ''trojan://example.com''
                              then Inr (ustr ''example.com'') else Inl ValueError),
      str_lower = map (\<lambda>c. if 65 \<le> c \<and> c \<le> 90 then c + 32 else c),
      str_upper = map (\<lambda>c. if 97 \<le> c \<and> c \<le> 122 then c - 32 else c),
      str_isalpha = (\<lambda>s. s \<noteq> [] \<and> list_all (\<lambda>c. (65 \<le> c \<and> c \<le> 90) \<or> (97 \<le> c \<and> c \<le> 122)) s),
      gethostbyname = (\<lambda>h. if h = ustr ''example.com'' then Resolved (ustr ''1.2.3.4'')
                            else Gaierror),
      ipwhois = (\<lambda>ip. Response 200 (Some (JObj [(ustr ''country_code'', JStr (ustr ''DE''))]))),
      randint = (\<lambda>n. 123456)\<rparr>"

text \<open>A second environment, for vmess links: \<open>json.loads\<close> and \<open>json.dumps\<close> as they
  behave on three configurations with the keys \<open>add\<close>, \<open>port\<close> and \<open>ps\<close>.
  \<open>vmess_document a n p\<close> is the text \<open>{"add": "a", "port": n, "ps": "p"}\<close> that
  \<open>json.dumps\<close> writes for such a configuration, \<open>vmess_config a n p\<close> the dict.\<close>

definition dquote :: "pystr \<Rightarrow> pystr" where
  "dquote s = [34] @ s @ [34]"

definition vmess_document :: "pystr \<Rightarrow> int \<Rightarrow> pystr \<Rightarrow> pystr" where
  "vmess_document a n p =
     ustr ''{'' @ dquote (ustr ''add'') @ ustr '': '' @ dquote a @ ustr '', ''
       @ dquote (ustr ''port'') @ ustr '': '' @ show_int n @ ustr '', ''
       @ dquote (ustr ''ps'') @ ustr '': '' @ dquote p @ ustr ''}''"

definition vmess_config :: "pystr \<Rightarrow> int \<Rightarrow> pystr \<Rightarrow> json" where
  "vmess_config a n p =
     JObj [(ustr ''add'', JStr a), (ustr ''port'', JInt n), (ustr ''ps'', JStr p)]"

definition vmess_sample_lib :: lib where
  "vmess_sample_lib =
     sample_lib
       \<lparr>json_loads :=
          (\<lambda>s. if s = vmess_document (ustr ''old.example'') 1 (ustr ''x'')
                 then Inr (vmess_config (ustr ''old.example'') 1 (ustr ''x''))
               else if s = vmess_document (ustr ''1.2.3.4'') 443 (ustr ''T'')
                 then Inr (vmess_config (ustr ''1.2.3.4'') 443 (ustr ''T''))
               else if s = vmess_document (ustr ''9.9.9.9'') 80 (ustr ''T'')
                 then Inr (vmess_config (ustr ''9.9.9.9'') 80 (ustr ''T''))
               else Inl JSONDecodeError),
        json_dumps :=
          (\<lambda>j. if j = vmess_config (ustr ''old.example'') 1 (ustr ''x'')
                 then Inr (vmess_document (ustr ''old.example'') 1 (ustr ''x''))
               else if j = vmess_config (ustr ''1.2.3.4'') 443 (ustr ''T'')
                 then Inr (vmess_document (ustr ''1.2.3.4'') 443 (ustr ''T''))
               else if j = vmess_config (ustr ''9.9.9.9'') 80 (ustr ''T'')
                 then Inr (vmess_document (ustr ''9.9.9.9'') 80 (ustr ''T''))
               else Inl TypeError)\<rparr>"


section \<open>Properties of the ranker\<close>

lemma first_seen_append: "first_seen s (xs @ ys) = first_seen (first_seen s xs) ys"
  by (induction xs arbitrary: s) simp_all

lemma set_first_seen: "set (first_seen s xs) = set s \<union> set xs"
  by (induction xs arbitrary: s) auto

lemma distinct_first_seen: "distinct s \<Longrightarrow> distinct (first_seen s xs)"
  by (induction xs arbitrary: s) auto

lemma keys_assign_host:
  "map fst (assign_host host lat pairs tbl) = first_seen (map fst tbl) (links_of_host host pairs)"
  by (induction host lat pairs tbl rule: assign_host.induct)
     (auto simp: links_of_host_def AList.update_keys)

lemma keys_link_latencies:
  "link_latencies rnd country nodes results pairs tbl = Inr t \<Longrightarrow>
   map fst t = first_seen (map fst tbl)
     (concat (map (\<lambda>hr. links_of_host (fst hr) pairs) results))"
proof (induction rnd country nodes results pairs tbl rule: link_latencies.induct)
  case (1 rnd country nodes all_pairs latencies)
  then show ?case by simp
next
  case (2 rnd country nodes host res results all_pairs latencies)
  then show ?case
    by (auto split: sum.splits simp: first_seen_append keys_assign_host)
qed

lemma keys_table_order:
  "link_latencies rnd country nodes results pairs [] = Inr t \<Longrightarrow>
   map fst t = table_order results pairs"
  by (simp add: keys_link_latencies table_order_def)

lemma distinct_table_order: "distinct (table_order results pairs)"
  by (simp add: table_order_def distinct_first_seen)

lemma set_table_order:
  "set (table_order results pairs) =
     {l. \<exists>h. (l, h) \<in> set pairs \<and> h \<in> fst ` set results}"
proof -
  have "set (table_order results pairs)
      = (\<Union>hr\<in>set results. set (links_of_host (fst hr) pairs))"
    by (simp add: table_order_def set_first_seen)
  also have "\<dots> = {l. \<exists>h. (l, h) \<in> set pairs \<and> h \<in> fst ` set results}"
    unfolding links_of_host_def by force
  finally show ?thesis .
qed

lemma stable_by_value:
  assumes "distinct (map fst tbl)"
  shows "filter (\<lambda>l. map_of tbl l = Some v) (map fst (sort_key snd tbl))
       = filter (\<lambda>l. map_of tbl l = Some v) (map fst tbl)"
proof -
  have eq: "\<And>p. p \<in> set tbl \<Longrightarrow> (map_of tbl (fst p) = Some v) = (snd p = v)"
    using assms by (metis map_of_eq_Some_iff option.inject prod.collapse)
  have "filter (\<lambda>l. map_of tbl l = Some v) (map fst (sort_key snd tbl))
      = map fst (filter (\<lambda>p. map_of tbl (fst p) = Some v) (sort_key snd tbl))"
    by (simp add: filter_map comp_def)
  also have "\<dots> = map fst (filter (\<lambda>p. snd p = v) (sort_key snd tbl))"
    by (rule arg_cong [where f = "map fst"], rule filter_cong) (auto simp: eq)
  also have "\<dots> = map fst (filter (\<lambda>p. snd p = v) tbl)"
    by (simp add: sort_key_stable)
  also have "\<dots> = map fst (filter (\<lambda>p. map_of tbl (fst p) = Some v) tbl)"
    by (rule arg_cong [where f = "map fst"], rule filter_cong) (auto simp: eq)
  also have "\<dots> = filter (\<lambda>l. map_of tbl l = Some v) (map fst tbl)"
    by (simp add: filter_map comp_def)
  finally show ?thesis .
qed

text \<open>
  Claim C2, as stated, fails: the link \<open>L1\<close> is discovered before \<open>L2\<close>, both get
  latency \<open>+infinity\<close>, and \<open>L2\<close> is ranked first, because its host comes first in the
  probe results.
\<close>

theorem ranking_not_discovery_order_counterexample:
  "\<forall>rnd. link_latencies rnd (ustr ''de'') [] [(ustr ''a'', JObj []), (ustr ''b'', JObj [])]
     [(ustr ''L1'', ustr ''b''), (ustr ''L2'', ustr ''a'')] []
     = Inr [(ustr ''L2'', Infinite), (ustr ''L1'', Infinite)]
   \<and> sorted_links rnd (ustr ''de'') [] [(ustr ''a'', JObj []), (ustr ''b'', JObj [])]
     [(ustr ''L1'', ustr ''b''), (ustr ''L2'', ustr ''a'')]
     = Inr [ustr ''L2'', ustr ''L1'']"
  by (simp add: sorted_links_def host_latency_def extract_latency_by_country_def
      mean_latency_def ustr_def less_eq_latency_def)

text \<open>
  Claim C2, amended: the ranked links are in ascending order of latency, and links of
  the same latency keep the order of the latency table, which lists the links host by
  host in the order of the probe results and, within a host, in discovery order.
\<close>

theorem ranking_stable_in_table_order:
  assumes "link_latencies rnd country nodes results all_pairs [] = Inr tbl"
  shows "sorted_links rnd country nodes results all_pairs = Inr (map fst (sort_key snd tbl))
    \<and> sorted (map snd (sort_key snd tbl))
    \<and> filter (\<lambda>l. map_of tbl l = Some v) (map fst (sort_key snd tbl))
        = filter (\<lambda>l. map_of tbl l = Some v) (table_order results all_pairs)"
proof -
  have keys: "map fst tbl = table_order results all_pairs"
    using assms by (rule keys_table_order)
  then have "distinct (map fst tbl)"
    by (simp add: distinct_table_order)
  then have "filter (\<lambda>l. map_of tbl l = Some v) (map fst (sort_key snd tbl))
        = filter (\<lambda>l. map_of tbl l = Some v) (map fst tbl)"
    by (rule stable_by_value)
  with keys assms show ?thesis
    by (simp add: sorted_links_def)
qed

theorem ranking_stable_in_table_order_witness:
  "\<forall>rnd. sorted_links rnd (ustr ''de'') [] [(ustr ''a'', JObj [])]
     [(ustr ''L1'', ustr ''a''), (ustr ''L2'', ustr ''a'')]
     = Inr [ustr ''L1'', ustr ''L2'']
   \<and> filter (\<lambda>l. map_of [(ustr ''L1'', Infinite), (ustr ''L2'', Infinite)] l = Some Infinite)
        [ustr ''L1'', ustr ''L2'']
     = filter (\<lambda>l. map_of [(ustr ''L1'', Infinite), (ustr ''L2'', Infinite)] l = Some Infinite)
        (table_order [(ustr ''a'', JObj [])]
           [(ustr ''L1'', ustr ''a''), (ustr ''L2'', ustr ''a'')])"
proof
  fix rnd
  have tbl: "link_latencies rnd (ustr ''de'') [] [(ustr ''a'', JObj [])]
      [(ustr ''L1'', ustr ''a''), (ustr ''L2'', ustr ''a'')] []
      = Inr [(ustr ''L1'', Infinite), (ustr ''L2'', Infinite)]"
    by (simp add: host_latency_def extract_latency_by_country_def mean_latency_def ustr_def)
  show "sorted_links rnd (ustr ''de'') [] [(ustr ''a'', JObj [])]
       [(ustr ''L1'', ustr ''a''), (ustr ''L2'', ustr ''a'')]
       = Inr [ustr ''L1'', ustr ''L2'']
     \<and> filter (\<lambda>l. map_of [(ustr ''L1'', Infinite), (ustr ''L2'', Infinite)] l = Some Infinite)
          [ustr ''L1'', ustr ''L2'']
       = filter (\<lambda>l. map_of [(ustr ''L1'', Infinite), (ustr ''L2'', Infinite)] l = Some Infinite)
          (table_order [(ustr ''a'', JObj [])]
             [(ustr ''L1'', ustr ''a''), (ustr ''L2'', ustr ''a'')])"
    using ranking_stable_in_table_order [OF tbl, of Infinite]
    by (simp add: less_eq_latency_def)
qed

text \<open>
  Claim C3, as stated, fails: a link string collected twice appears once in the ranked
  output, since the latency table is keyed by the link string.
\<close>

theorem duplicate_link_collapsed_counterexample:
  "\<forall>rnd. sorted_links rnd (ustr ''de'') [] [(ustr ''a'', JObj [])]
     [(ustr ''L1'', ustr ''a''), (ustr ''L1'', ustr ''a'')]
     = Inr [ustr ''L1'']"
  by (simp add: sorted_links_def host_latency_def extract_latency_by_country_def
      mean_latency_def ustr_def)

text \<open>
  Claim C3, amended: when every host of a collected link has a probe result (as the
  program arranges), the ranked output holds every collected link string exactly once:
  exact-string duplicates are collapsed.
\<close>

theorem ranked_links_distinct:
  assumes "sorted_links rnd country nodes results all_pairs = Inr ranked"
    and "snd ` set all_pairs \<subseteq> fst ` set results"
  shows "distinct ranked \<and> set ranked = fst ` set all_pairs"
proof -
  from assms(1) obtain tbl where
    tbl: "link_latencies rnd country nodes results all_pairs [] = Inr tbl"
    and ranked: "ranked = map fst (sort_key snd tbl)"
    by (auto simp: sorted_links_def split: sum.splits)
  have keys: "map fst tbl = table_order results all_pairs"
    using tbl by (rule keys_table_order)
  have d: "distinct (map fst tbl)"
    by (simp add: keys distinct_table_order)
  have "distinct (sort_key snd tbl)"
    using d by (simp add: distinct_map)
  moreover have "inj_on fst (set (sort_key snd tbl))"
    using d by (simp add: distinct_map)
  ultimately have dr: "distinct ranked"
    unfolding ranked by (simp add: distinct_map)
  have "set ranked = set (map fst tbl)"
    unfolding ranked by simp
  also have "\<dots> = {l. \<exists>h. (l, h) \<in> set all_pairs \<and> h \<in> fst ` set results}"
    by (simp only: keys set_table_order)
  also have "\<dots> = fst ` set all_pairs"
  proof (intro set_eqI iffI)
    fix l
    assume "l \<in> {l. \<exists>h. (l, h) \<in> set all_pairs \<and> h \<in> fst ` set results}"
    then obtain h where "(l, h) \<in> set all_pairs"
      by blast
    then show "l \<in> fst ` set all_pairs"
      by (rule rev_image_eqI) simp
  next
    fix l
    assume "l \<in> fst ` set all_pairs"
    then obtain h where lh: "(l, h) \<in> set all_pairs"
      by auto
    then have "h \<in> snd ` set all_pairs"
      by (rule rev_image_eqI) simp
    with assms(2) have "h \<in> fst ` set results"
      by blast
    with lh show "l \<in> {l. \<exists>h. (l, h) \<in> set all_pairs \<and> h \<in> fst ` set results}"
      by blast
  qed
  finally have "set ranked = fst ` set all_pairs" .
  with dr show ?thesis by simp
qed

theorem ranked_links_distinct_witness:
  "distinct [ustr ''L1''] \<and>
   set [ustr ''L1''] = fst ` set [(ustr ''L1'', ustr ''a''), (ustr ''L1'', ustr ''a'')]"
proof -
  have run: "sorted_links Finite (ustr ''de'') [] [(ustr ''a'', JObj [])]
      [(ustr ''L1'', ustr ''a''), (ustr ''L1'', ustr ''a'')] = Inr [ustr ''L1'']"
    by (simp add: sorted_links_def host_latency_def extract_latency_by_country_def
        mean_latency_def ustr_def)
  have cover: "snd ` set [(ustr ''L1'', ustr ''a''), (ustr ''L1'', ustr ''a'')]
      \<subseteq> fst ` set [(ustr ''a'', JObj [])]"
    by simp
  show ?thesis
    using ranked_links_distinct [OF run cover] .
qed

section \<open>Properties of the aggregator\<close>

lemma unpack2_obs_json: "unpack2 (obs_json ob) = Inr (fst ob, snd ob)"
  by (simp add: unpack2_def obs_json_def)

lemma collect_ok_reads:
  assumes "rest = [] \<or> (\<exists>e. unpack2 (hd rest) = Inl e)"
  shows "collect_ok (map obs_json obss @ rest) = ok_samples obss"
proof (induction obss)
  case Nil
  show ?case
    using assms by (cases rest) (auto simp: ok_samples_def)
next
  case (Cons ob obss)
  then show ?case
    by (cases ob) (simp add: unpack2_obs_json ok_samples_def)
qed

lemma node_pings_reads:
  assumes "node_reads results obs_of n"
  shows "\<exists>entries. results_get results n = Inr entries
           \<and> node_pings entries = ok_samples (obs_of n)"
proof -
  from assms obtain entries where get: "results_get results n = Inr entries"
    and shape: "(\<exists>rest more. entries = JArr (JArr (map obs_json (obs_of n) @ rest) # more)
            \<and> (rest = [] \<or> (\<exists>e. unpack2 (hd rest) = Inl e)))
         \<or> (obs_of n = []
            \<and> ((\<exists>e. index0 entries = Inl e)
               \<or> (\<exists>first e. index0 entries = Inr first \<and> py_iter first = Inl e)))"
    unfolding node_reads_def by blast
  from shape have "node_pings entries = ok_samples (obs_of n)"
  proof (elim disjE exE conjE)
    fix rest more
    assume "entries = JArr (JArr (map obs_json (obs_of n) @ rest) # more)"
      and "rest = []"
    then show ?thesis
      using collect_ok_reads [of "[]" "obs_of n"] by (simp add: node_pings_def)
  next
    fix rest more e
    assume "entries = JArr (JArr (map obs_json (obs_of n) @ rest) # more)"
      and "unpack2 (hd rest) = Inl e"
    then show ?thesis
      using collect_ok_reads [of rest "obs_of n"] by (simp add: node_pings_def)
  next
    fix e
    assume "obs_of n = []" and "index0 entries = Inl e"
    then show ?thesis
      by (simp add: node_pings_def ok_samples_def)
  next
    fix first e
    assume "obs_of n = []" and "index0 entries = Inr first" and "py_iter first = Inl e"
    then show ?thesis
      by (simp add: node_pings_def ok_samples_def)
  qed
  with get show ?thesis by blast
qed

lemma country_pings_reads:
  "\<forall>n\<in>set nodes. node_reads results obs_of n \<Longrightarrow>
   country_pings results nodes = Inr (country_samples obs_of nodes)"
proof (induction nodes)
  case Nil
  then show ?case by (simp add: country_samples_def)
next
  case (Cons n nodes)
  then have ih: "country_pings results nodes = Inr (country_samples obs_of nodes)"
    by simp
  from Cons.prems have "node_reads results obs_of n" by simp
  then obtain entries where "results_get results n = Inr entries"
    and "node_pings entries = ok_samples (obs_of n)"
    using node_pings_reads by blast
  then show ?case
    using ih by (simp add: country_samples_def)
qed

lemma country_pings_absent:
  "\<forall>n\<in>set nodes. results_get results n = Inr (JArr []) \<Longrightarrow>
   country_pings results nodes = Inr []"
  by (induction nodes) (simp_all add: node_pings_def)

lemma update_fresh: "c \<notin> fst ` set acc \<Longrightarrow> AList.update c v acc = acc @ [(c, v)]"
  by (induction acc) auto

lemma latency_loop_reads:
  "\<forall>cn\<in>set country_nodes. \<forall>n\<in>set (snd cn). node_reads results obs_of n \<Longrightarrow>
   distinct (map fst country_nodes) \<Longrightarrow>
   set (map fst country_nodes) \<inter> set (map fst acc) = {} \<Longrightarrow>
   latency_loop rnd results country_nodes acc =
     (case country_means rnd
             (map (\<lambda>cn. (fst cn, country_samples obs_of (snd cn))) country_nodes) of
        Inl e \<Rightarrow> Inl e
      | Inr d \<Rightarrow> Inr (acc @ d))"
proof (induction country_nodes arbitrary: acc)
  case Nil
  then show ?case by simp
next
  case (Cons cn rest)
  obtain c ns where cn: "cn = (c, ns)" by (cases cn)
  have reads: "\<forall>n\<in>set ns. node_reads results obs_of n"
    using Cons.prems(1) cn by simp
  have fresh: "c \<notin> fst ` set acc"
    using Cons.prems(3) cn by auto
  have step: "latency_loop rnd results rest (acc @ [(c, lat)]) =
      (case country_means rnd
              (map (\<lambda>cn. (fst cn, country_samples obs_of (snd cn))) rest) of
         Inl e \<Rightarrow> Inl e
       | Inr d \<Rightarrow> Inr ((acc @ [(c, lat)]) @ d))" for lat
  proof (rule Cons.IH)
    show "\<forall>cn\<in>set rest. \<forall>n\<in>set (snd cn). node_reads results obs_of n"
      using Cons.prems(1) by simp
    show "distinct (map fst rest)"
      using Cons.prems(2) by simp
    show "set (map fst rest) \<inter> set (map fst (acc @ [(c, lat)])) = {}"
      using Cons.prems(2,3) cn by auto
  qed
  show ?case
    by (simp add: cn country_pings_reads [OF reads] update_fresh [OF fresh] step
        split: sum.splits)
qed

lemma latency_loop_keeps:
  "latency_loop rnd results country_nodes acc = Inr d \<Longrightarrow>
   c \<notin> fst ` set country_nodes \<Longrightarrow> map_of d c = map_of acc c"
proof (induction country_nodes arbitrary: acc)
  case Nil
  then show ?case by simp
next
  case (Cons cn rest)
  obtain c' ns where cn: "cn = (c', ns)" by (cases cn)
  from Cons.prems(1) obtain lat where
    loop: "latency_loop rnd results rest (AList.update c' lat acc) = Inr d"
    by (auto simp: cn split: sum.splits)
  have "c \<notin> fst ` set rest" and "c \<noteq> c'"
    using Cons.prems(2) cn by auto
  then show ?case
    using Cons.IH [OF loop] by (simp add: update_conv')
qed

lemma latency_loop_absent:
  "latency_loop rnd results country_nodes acc = Inr d \<Longrightarrow>
   distinct (map fst country_nodes) \<Longrightarrow>
   (c, ns) \<in> set country_nodes \<Longrightarrow>
   country_pings results ns = Inr [] \<Longrightarrow> map_of d c = Some Infinite"
proof (induction country_nodes arbitrary: acc)
  case Nil
  then show ?case by simp
next
  case (Cons cn rest)
  obtain c' ns' where cn: "cn = (c', ns')" by (cases cn)
  from Cons.prems(1) obtain pings lat where
    pings: "country_pings results ns' = Inr pings"
    and lat: "mean_latency rnd pings = Inr lat"
    and loop: "latency_loop rnd results rest (AList.update c' lat acc) = Inr d"
    by (auto simp: cn split: sum.splits)
  show ?case
  proof (cases "(c, ns) = (c', ns')")
    case True
    then have "pings = []"
      using pings Cons.prems(4) by simp
    then have "lat = Infinite"
      using lat by (simp add: mean_latency_def)
    moreover have "c \<notin> fst ` set rest"
      using Cons.prems(2) cn True by auto
    ultimately show ?thesis
      using latency_loop_keeps [OF loop] True by (simp add: update_conv')
  next
    case False
    then have "(c, ns) \<in> set rest"
      using Cons.prems(3) cn by auto
    then show ?thesis
      using Cons.IH [OF loop] Cons.prems(2,4) by simp
  qed
qed

lemma exact_sum_start: "exact_sum rnd s xs \<Longrightarrow> rnd s = Finite s"
  by (cases xs) simp_all

lemma py_add_exact:
  assumes "is_number x" and "rnd s = Finite s" and "rnd (num x) = Finite (num x)"
    and "rnd (s + num x) = Finite (s + num x)" and "holds_value acc s"
  shows "\<exists>acc'. py_add rnd acc x = Inr acc' \<and> holds_value acc' (s + num x)"
proof (cases acc)
  case (PInt a)
  then have "real_of_int a = s"
    using assms(5) by simp
  then show ?thesis
    using assms(1-4) PInt by (cases x) (auto simp: int_to_float_def)
next
  case (PFloat f)
  then have "f = Finite s"
    using assms(5) by (cases f) simp_all
  then show ?thesis
    using assms(1-4) PFloat by (cases x) (auto simp: int_to_float_def)
qed

lemma py_sum_exact:
  "exact_sum rnd s xs \<Longrightarrow> holds_value acc s \<Longrightarrow>
   \<exists>acc'. py_sum rnd acc xs = Inr acc' \<and> holds_value acc' (s + sum_list (map num xs))"
proof (induction xs arbitrary: s acc)
  case Nil
  then show ?case by simp
next
  case (Cons x xs)
  from Cons.prems(1) have x: "is_number x" "rnd s = Finite s" "rnd (num x) = Finite (num x)"
    and rest: "exact_sum rnd (s + num x) xs"
    by simp_all
  from rest have "rnd (s + num x) = Finite (s + num x)"
    by (rule exact_sum_start)
  with x Cons.prems(2) obtain acc1 where
    add: "py_add rnd acc x = Inr acc1" and v1: "holds_value acc1 (s + num x)"
    using py_add_exact by blast
  from Cons.IH [OF rest v1] obtain acc' where
    "py_sum rnd acc1 xs = Inr acc'"
    and "holds_value acc' (s + num x + sum_list (map num xs))"
    by blast
  with add show ?case
    by (simp add: add.assoc)
qed

lemma py_truediv_exact:
  "holds_value acc t \<Longrightarrow> rnd (t / real n) = Finite (t / real n) \<Longrightarrow>
   py_truediv rnd acc n = Inr (Finite (t / real n))"
  by (cases "(rnd, acc, n)" rule: py_truediv.cases) auto

lemma mean_latency_exact:
  assumes "exact_mean rnd xs"
  shows "mean_latency rnd xs = Inr (arithmetic_mean xs)"
proof (cases "xs = []")
  case True
  then show ?thesis
    by (simp add: mean_latency_def arithmetic_mean_def)
next
  case False
  with assms have sum: "exact_sum rnd 0 xs"
    and quot: "rnd (sum_list (map num xs) / real (length xs))
        = Finite (sum_list (map num xs) / real (length xs))"
    by (simp_all add: exact_mean_def)
  have "holds_value (PInt 0) 0"
    by simp
  with sum obtain tot where tot: "py_sum rnd (PInt 0) xs = Inr tot"
    and tv: "holds_value tot (0 + sum_list (map num xs))"
    using py_sum_exact by blast
  from tv quot have "py_truediv rnd tot (length xs)
      = Inr (Finite (sum_list (map num xs) / real (length xs)))"
    using py_truediv_exact [of tot "sum_list (map num xs)" rnd "length xs"] by simp
  with tot False show ?thesis
    by (simp add: mean_latency_def arithmetic_mean_def)
qed

lemma country_means_exact:
  "\<forall>cn\<in>set country_nodes. exact_mean rnd (samples cn) \<Longrightarrow>
   country_means rnd (map (\<lambda>cn. (fst cn, samples cn)) country_nodes)
     = Inr (map (\<lambda>cn. (fst cn, arithmetic_mean (samples cn))) country_nodes)"
  by (induction country_nodes) (simp_all add: mean_latency_exact)

text \<open>
  Claim C5, as stated, fails: the node's first observation has three items (status,
  latency, address), unpacking it raises, and the node's later successful sample
  \<open>["OK", 0.046]\<close> is never read; the country gets \<open>+infinity\<close>, not a mean.
\<close>

theorem malformed_observation_drops_samples_counterexample:
  "\<forall>rnd. extract_latency_by_country rnd
     (JObj [(ustr ''n1'',
        JArr [JArr [JArr [JStr (ustr ''OK''), JFloat (44 / 1000), JStr (ustr ''1.2.3.4'')],
                    JArr [JStr (ustr ''OK''), JFloat (46 / 1000)]]])])
     [(ustr ''de'', [ustr ''n1''])]
   = Inr [(ustr ''de'', Infinite)]"
  by (simp add: extract_latency_by_country_def results_get_def node_pings_def unpack2_def
      mean_latency_def)

text \<open>
  Claim C5, amended. The countries of the mapping are distinct (it is a \<open>dict\<close>).

  \<^item> When every node of the mapping is read as \<open>node_reads\<close> says (from the first entry of
    its entry list, the two-item observations that come before the first observation
    that cannot be unpacked; nothing when the node is absent or has no such entry), the
    function returns, country by country, what Python computes for
    \<open>sum(samples) / len(samples)\<close> over the latencies of the country's \<open>"OK"\<close>
    observations, \<open>+infinity\<close> when there are none; an exception of that computation
    (\<open>TypeError\<close> for a latency that is no number, \<open>OverflowError\<close> for an integer sum
    beyond the doubles) leaves the function.
  \<^item> When, moreover, the samples of every country are numbers (integers or floats) whose
    partial sums and mean are doubles, so that nothing is rounded and nothing overflows,
    every country is mapped to the arithmetic mean of its samples, \<open>+infinity\<close> when
    there are none.
  \<^item> Whatever the raw result looks like elsewhere: if the function returns, a country
    none of whose nodes is in the raw result is mapped to \<open>+infinity\<close>.
\<close>

theorem extract_latency_by_country_mean:
  assumes dist: "distinct (map fst country_nodes)"
  shows "((\<forall>cn\<in>set country_nodes. \<forall>n\<in>set (snd cn). node_reads results obs_of n) \<longrightarrow>
            extract_latency_by_country rnd results country_nodes =
              country_means rnd
                (map (\<lambda>cn. (fst cn, country_samples obs_of (snd cn))) country_nodes))
    \<and> ((\<forall>cn\<in>set country_nodes. \<forall>n\<in>set (snd cn). node_reads results obs_of n) \<and>
        (\<forall>cn\<in>set country_nodes. exact_mean rnd (country_samples obs_of (snd cn))) \<longrightarrow>
            extract_latency_by_country rnd results country_nodes =
              Inr (map (\<lambda>cn. (fst cn, arithmetic_mean (country_samples obs_of (snd cn))))
                     country_nodes))
    \<and> (\<forall>d. extract_latency_by_country rnd results country_nodes = Inr d \<longrightarrow>
          (\<forall>cn\<in>set country_nodes.
              (\<forall>n\<in>set (snd cn). results_get results n = Inr (JArr [])) \<longrightarrow>
              map_of d (fst cn) = Some Infinite))"
proof (intro conjI impI allI ballI)
  assume reads: "\<forall>cn\<in>set country_nodes. \<forall>n\<in>set (snd cn). node_reads results obs_of n"
  show "extract_latency_by_country rnd results country_nodes =
      country_means rnd (map (\<lambda>cn. (fst cn, country_samples obs_of (snd cn))) country_nodes)"
    unfolding extract_latency_by_country_def
    using latency_loop_reads [OF reads dist, of "[]" rnd]
    by (simp split: sum.splits)
next
  assume both: "(\<forall>cn\<in>set country_nodes. \<forall>n\<in>set (snd cn). node_reads results obs_of n) \<and>
      (\<forall>cn\<in>set country_nodes. exact_mean rnd (country_samples obs_of (snd cn)))"
  then have reads: "\<forall>cn\<in>set country_nodes. \<forall>n\<in>set (snd cn). node_reads results obs_of n"
    and exact: "\<forall>cn\<in>set country_nodes. exact_mean rnd (country_samples obs_of (snd cn))"
    by simp_all
  have "country_means rnd
          (map (\<lambda>cn. (fst cn, country_samples obs_of (snd cn))) country_nodes)
      = Inr (map (\<lambda>cn. (fst cn, arithmetic_mean (country_samples obs_of (snd cn))))
               country_nodes)"
    using exact by (rule country_means_exact)
  then show "extract_latency_by_country rnd results country_nodes =
      Inr (map (\<lambda>cn. (fst cn, arithmetic_mean (country_samples obs_of (snd cn))))
             country_nodes)"
    unfolding extract_latency_by_country_def
    using latency_loop_reads [OF reads dist, of "[]" rnd]
    by simp
next
  fix d cn
  assume run: "extract_latency_by_country rnd results country_nodes = Inr d"
    and cn: "cn \<in> set country_nodes"
    and absent: "\<forall>n\<in>set (snd cn). results_get results n = Inr (JArr [])"
  have loop: "latency_loop rnd results country_nodes [] = Inr d"
    using run by (simp add: extract_latency_by_country_def)
  have mem: "(fst cn, snd cn) \<in> set country_nodes"
    using cn by simp
  have "country_pings results (snd cn) = Inr []"
    using absent by (rule country_pings_absent)
  with loop dist mem show "map_of d (fst cn) = Some Infinite"
    by (rule latency_loop_absent)
qed

theorem extract_latency_by_country_mean_witness:
  "extract_latency_by_country Finite
     (JObj [(ustr ''n1'',
        JArr [JArr [JArr [JStr (ustr ''OK''), JInt 1],
                    JArr [JStr (ustr ''TIMEOUT''), JInt 3],
                    JArr [JStr (ustr ''OK''), JFloat 2],
                    JArr [JStr (ustr ''OK''), JFloat (1 / 2), JStr (ustr ''1.2.3.4'')],
                    JArr [JStr (ustr ''OK''), JInt 9]]])])
     [(ustr ''de'', [ustr ''n1'']), (ustr ''fr'', [ustr ''n2''])]
   = Inr [(ustr ''de'', Finite (3 / 2)), (ustr ''fr'', Infinite)]"
proof -
  define results where "results =
    JObj [(ustr ''n1'',
        JArr [JArr [JArr [JStr (ustr ''OK''), JInt 1],
                    JArr [JStr (ustr ''TIMEOUT''), JInt 3],
                    JArr [JStr (ustr ''OK''), JFloat 2],
                    JArr [JStr (ustr ''OK''), JFloat (1 / 2), JStr (ustr ''1.2.3.4'')],
                    JArr [JStr (ustr ''OK''), JInt 9]]])]"
  define obs_of :: "pystr \<Rightarrow> (json \<times> json) list" where "obs_of =
    (\<lambda>n. if n = ustr ''n1''
          then [(JStr (ustr ''OK''), JInt 1), (JStr (ustr ''TIMEOUT''), JInt 3),
                (JStr (ustr ''OK''), JFloat 2)]
          else [])"
  have get1: "results_get results (ustr ''n1'') =
      Inr (JArr [JArr (map obs_json (obs_of (ustr ''n1'')) @
             [JArr [JStr (ustr ''OK''), JFloat (1 / 2), JStr (ustr ''1.2.3.4'')],
              JArr [JStr (ustr ''OK''), JInt 9]])])"
    by (simp add: results_def obs_of_def results_get_def obs_json_def)
  have fail: "unpack2 (JArr [JStr (ustr ''OK''), JFloat (1 / 2), JStr (ustr ''1.2.3.4'')])
      = Inl ValueError"
    by (simp add: unpack2_def)
  have n1: "node_reads results obs_of (ustr ''n1'')"
    unfolding node_reads_def using get1 fail by fastforce
  have get2: "results_get results (ustr ''n2'') = Inr (JArr [])"
    by (simp add: results_def results_get_def ustr_def)
  have n2: "node_reads results obs_of (ustr ''n2'')"
    unfolding node_reads_def using get2 by (simp add: obs_of_def ustr_def)
  have reads: "\<forall>cn\<in>set [(ustr ''de'', [ustr ''n1'']), (ustr ''fr'', [ustr ''n2''])].
      \<forall>n\<in>set (snd cn). node_reads results obs_of n"
    using n1 n2 by simp
  have dist: "distinct (map fst [(ustr ''de'', [ustr ''n1'']), (ustr ''fr'', [ustr ''n2''])])"
    by (simp add: ustr_def)
  have de: "country_samples obs_of [ustr ''n1''] = [JInt 1, JFloat 2]"
    by (simp add: country_samples_def ok_samples_def obs_of_def ustr_def)
  have fr: "country_samples obs_of [ustr ''n2''] = []"
    by (simp add: country_samples_def ok_samples_def obs_of_def ustr_def)
  have exact: "\<forall>cn\<in>set [(ustr ''de'', [ustr ''n1'']), (ustr ''fr'', [ustr ''n2''])].
      exact_mean Finite (country_samples obs_of (snd cn))"
    by (simp add: de fr exact_mean_def)
  have "extract_latency_by_country Finite results
          [(ustr ''de'', [ustr ''n1'']), (ustr ''fr'', [ustr ''n2''])]
      = Inr (map (\<lambda>cn. (fst cn, arithmetic_mean (country_samples obs_of (snd cn))))
               [(ustr ''de'', [ustr ''n1'']), (ustr ''fr'', [ustr ''n2''])])"
    using extract_latency_by_country_mean
      [OF dist, where rnd = Finite and results = results and obs_of = obs_of]
      reads exact
    by blast
  then show ?thesis
    unfolding results_def by (simp add: de fr arithmetic_mean_def)
qed

lemma poll_loop_got:
  "k < n \<Longrightarrow> \<forall>m<k. poll_idle (p (i + m)) \<Longrightarrow> p (i + k) = Response 200 (Some j) \<Longrightarrow>
   py_truthy j \<Longrightarrow> poll_loop p i n = Got j"
proof (induction k arbitrary: i n)
  case 0
  then obtain n' where "n = Suc n'" by (cases n) auto
  with 0 show ?case by simp
next
  case (Suc k)
  then obtain n' where n: "n = Suc n'" by (cases n) auto
  have idle: "poll_idle (p i)"
    using Suc.prems(2) by (metis add.right_neutral zero_less_Suc)
  have "poll_loop p (Suc i) n' = Got j"
  proof (rule Suc.IH)
    show "k < n'" using Suc.prems(1) n by simp
    show "\<forall>m<k. poll_idle (p (Suc i + m))"
      using Suc.prems(2) by (metis Suc_less_eq add_Suc_shift)
    show "p (Suc i + k) = Response 200 (Some j)"
      using Suc.prems(3) by simp
    show "py_truthy j" by fact
  qed
  with idle show ?case
    unfolding n by (cases "p i") (auto split: option.splits)
qed

lemma attempts_503:
  "is_503 (submit n a) \<Longrightarrow> a' = a + 1 \<Longrightarrow> r = r' + 1 \<Longrightarrow>
   attempts n a r = attempts n a' r'"
  by (cases "submit n a") auto

lemma attempts_success:
  "submit n a = Response st (Some (JObj kvs)) \<Longrightarrow> 200 \<le> st \<Longrightarrow> st < 300 \<Longrightarrow>
   map_of kvs (ustr ''request_id'') = Some rid \<Longrightarrow> py_truthy rid \<Longrightarrow>
   poll_loop (poll n a rid) 1 10 = Got j \<Longrightarrow> 0 < r \<Longrightarrow> attempts n a r = j"
  by (cases r) auto

lemma poll_loop_exhausted:
  "\<forall>m<k. poll_idle (p (i + m)) \<Longrightarrow> poll_loop p i k = Exhausted"
proof (induction k arbitrary: i)
  case 0
  then show ?case by simp
next
  case (Suc k)
  have idle: "poll_idle (p i)"
    using Suc.prems by (metis add.right_neutral zero_less_Suc)
  have "poll_loop p (Suc i) k = Exhausted"
  proof (rule Suc.IH)
    show "\<forall>m<k. poll_idle (p (Suc i + m))"
      using Suc.prems by (metis Suc_less_eq add_Suc_shift)
  qed
  with idle show ?case
    by (cases "p i") (auto split: option.splits)
qed

lemma attempts_exhausted:
  "submit n a = Response st (Some (JObj kvs)) \<Longrightarrow> 200 \<le> st \<Longrightarrow> st < 300 \<Longrightarrow>
   map_of kvs (ustr ''request_id'') = Some rid \<Longrightarrow> py_truthy rid \<Longrightarrow>
   poll_loop (poll n a rid) 1 10 = Exhausted \<Longrightarrow> 0 < r \<Longrightarrow> attempts n a r = JObj []"
  by (cases r) auto

text \<open>
  Claim C4, as stated, fails: the submission returns 503 twice and succeeds on the third
  attempt (status 200 with a request id), but none of the ten polls has a result yet;
  the host gets the empty result.
\<close>

theorem submission_accepted_without_result_counterexample:
  "run_ping_once
     \<lparr>submit = (\<lambda>a. if a = 3
                     then Response 200 (Some (JObj [(ustr ''request_id'', JStr (ustr ''r1''))]))
                     else Response 503 None),
      poll = (\<lambda>a rid i. Response 200 (Some (JObj [])))\<rparr>
     (ustr ''h'') 3
   = JObj []"
  by (simp add: run_ping_once_def ustr_def eval_nat_numeral)

text \<open>
  Claim C4, amended: with the default budget of three attempts, a host whose submission
  returns 503 on the first two attempts and is accepted on the third (a 2xx response
  with a request id) gets the body of the first of the ten polls that answers with
  status 200 and a non-empty body, the polls before it answering without a result; that
  result is non-empty. When none of the ten polls brings a result, the host gets the
  empty result. A host whose submission returns 503 on all three attempts gets the
  empty result.
\<close>

theorem run_ping_once_retries_503:
  "(host \<noteq> [] \<and> is_503 (submit n 1) \<and> is_503 (submit n 2)
      \<and> submit n 3 = Response st (Some (JObj kvs)) \<and> 200 \<le> st \<and> st < 300
      \<and> map_of kvs (ustr ''request_id'') = Some rid \<and> py_truthy rid
      \<and> k < 10 \<and> (\<forall>m<k. poll_idle (poll n 3 rid (1 + m)))
      \<and> poll n 3 rid (1 + k) = Response 200 (Some j) \<and> py_truthy j
     \<longrightarrow> run_ping_once n host 3 = j \<and> run_ping_once n host 3 \<noteq> JObj [])
   \<and> (is_503 (submit n 1) \<and> is_503 (submit n 2)
      \<and> submit n 3 = Response st (Some (JObj kvs)) \<and> 200 \<le> st \<and> st < 300
      \<and> map_of kvs (ustr ''request_id'') = Some rid \<and> py_truthy rid
      \<and> (\<forall>m<10. poll_idle (poll n 3 rid (1 + m)))
     \<longrightarrow> run_ping_once n host 3 = JObj [])
   \<and> (is_503 (submit n 1) \<and> is_503 (submit n 2) \<and> is_503 (submit n 3)
     \<longrightarrow> run_ping_once n host 3 = JObj [])"
proof (intro conjI impI)
  assume a: "host \<noteq> [] \<and> is_503 (submit n 1) \<and> is_503 (submit n 2)
      \<and> submit n 3 = Response st (Some (JObj kvs)) \<and> 200 \<le> st \<and> st < 300
      \<and> map_of kvs (ustr ''request_id'') = Some rid \<and> py_truthy rid
      \<and> k < 10 \<and> (\<forall>m<k. poll_idle (poll n 3 rid (1 + m)))
      \<and> poll n 3 rid (1 + k) = Response 200 (Some j) \<and> py_truthy j"
  then have got: "poll_loop (poll n 3 rid) 1 10 = Got j"
    by (intro poll_loop_got [where k = k]) simp_all
  have "attempts n 1 3 = attempts n 2 2"
    by (rule attempts_503) (use a in simp_all)
  also have "\<dots> = attempts n 3 1"
    by (rule attempts_503) (use a in simp_all)
  also have "\<dots> = j"
    using a got by (intro attempts_success [where st = st and kvs = kvs and rid = rid]) simp_all
  finally have r: "run_ping_once n host 3 = j"
    using a by (simp add: run_ping_once_def)
  then show "run_ping_once n host 3 = j" .
  from a have "py_truthy j" by simp
  then have "j \<noteq> JObj []" by auto
  with r show "run_ping_once n host 3 \<noteq> JObj []" by simp
next
  assume c: "is_503 (submit n 1) \<and> is_503 (submit n 2)
      \<and> submit n 3 = Response st (Some (JObj kvs)) \<and> 200 \<le> st \<and> st < 300
      \<and> map_of kvs (ustr ''request_id'') = Some rid \<and> py_truthy rid
      \<and> (\<forall>m<10. poll_idle (poll n 3 rid (1 + m)))"
  then have none: "poll_loop (poll n 3 rid) 1 10 = Exhausted"
    by (intro poll_loop_exhausted) simp
  have "attempts n 1 3 = attempts n 2 2"
    by (rule attempts_503) (use c in simp_all)
  also have "\<dots> = attempts n 3 1"
    by (rule attempts_503) (use c in simp_all)
  also have "\<dots> = JObj []"
    using c none
    by (intro attempts_exhausted [where st = st and kvs = kvs and rid = rid]) simp_all
  finally show "run_ping_once n host 3 = JObj []"
    by (simp add: run_ping_once_def)
next
  assume b: "is_503 (submit n 1) \<and> is_503 (submit n 2) \<and> is_503 (submit n 3)"
  have "attempts n 1 3 = attempts n 2 2"
    by (rule attempts_503) (use b in simp_all)
  also have "\<dots> = attempts n 3 1"
    by (rule attempts_503) (use b in simp_all)
  also have "\<dots> = attempts n 4 0"
    by (rule attempts_503) (use b in simp_all)
  finally have "attempts n 1 3 = JObj []"
    by simp
  then show "run_ping_once n host 3 = JObj []"
    by (simp add: run_ping_once_def)
qed

theorem run_ping_once_retries_503_witness:
  "run_ping_once
     \<lparr>submit = (\<lambda>a. if a = 3
                     then Response 200 (Some (JObj [(ustr ''request_id'', JStr (ustr ''r1''))]))
                     else Response 503 None),
      poll = (\<lambda>a rid i. if i = 2 then Response 200 (Some (JObj [(ustr ''n1'', JArr [])]))
                         else Response 200 (Some (JObj [])))\<rparr>
     (ustr ''h'') 3
   = JObj [(ustr ''n1'', JArr [])]
   \<and> run_ping_once \<lparr>submit = (\<lambda>a. Response 503 None), poll = (\<lambda>a rid i. Raised)\<rparr>
       (ustr ''h'') 3
   = JObj []"
proof
  let ?n = "\<lparr>submit = (\<lambda>a. if a = 3
                     then Response 200 (Some (JObj [(ustr ''request_id'', JStr (ustr ''r1''))]))
                     else Response 503 None),
      poll = (\<lambda>a rid i. if i = 2 then Response 200 (Some (JObj [(ustr ''n1'', JArr [])]))
                         else Response 200 (Some (JObj [])))\<rparr>"
  have idle: "\<forall>m<(1::nat). poll_idle (poll ?n 3 (JStr (ustr ''r1'')) (1 + m))"
    by simp
  have "ustr ''h'' \<noteq> [] \<and> is_503 (submit ?n 1) \<and> is_503 (submit ?n 2)
      \<and> submit ?n 3 = Response 200 (Some (JObj [(ustr ''request_id'', JStr (ustr ''r1''))]))
      \<and> (200::nat) \<le> 200 \<and> (200::nat) < 300
      \<and> map_of [(ustr ''request_id'', JStr (ustr ''r1''))] (ustr ''request_id'')
          = Some (JStr (ustr ''r1''))
      \<and> py_truthy (JStr (ustr ''r1''))
      \<and> (1::nat) < 10 \<and> (\<forall>m<(1::nat). poll_idle (poll ?n 3 (JStr (ustr ''r1'')) (1 + m)))
      \<and> poll ?n 3 (JStr (ustr ''r1'')) (1 + 1) = Response 200 (Some (JObj [(ustr ''n1'', JArr [])]))
      \<and> py_truthy (JObj [(ustr ''n1'', JArr [])])"
    using idle by (simp add: ustr_def)
  with run_ping_once_retries_503 [of "ustr ''h''" ?n 200
      "[(ustr ''request_id'', JStr (ustr ''r1''))]" "JStr (ustr ''r1'')" 1
      "JObj [(ustr ''n1'', JArr [])]"]
  show "run_ping_once ?n (ustr ''h'') 3 = JObj [(ustr ''n1'', JArr [])]"
    by blast
next
  let ?n = "\<lparr>submit = (\<lambda>a. Response 503 None), poll = (\<lambda>a rid i. Raised)\<rparr>"
  have "is_503 (submit ?n 1) \<and> is_503 (submit ?n 2) \<and> is_503 (submit ?n 3)"
    by simp
  with run_ping_once_retries_503 [of "ustr ''h''" ?n]
  show "run_ping_once ?n (ustr ''h'') 3 = JObj []"
    by blast
qed

section \<open>Properties of base64 and UTF-8\<close>

lemma b64_value_char: "v < 64 \<Longrightarrow> b64_value (b64_char v) = Some v"
  by (auto simp: b64_value_def b64_char_def)

lemma b64_char_not_pad: "v < 64 \<Longrightarrow> b64_char v \<noteq> 61"
  by (auto simp: b64_char_def)

lemma b64_char_ascii: "b64_char v < 128"
  by (auto simp: b64_char_def)

lemma b64_char_not_colon: "b64_char v \<noteq> 58"
  by (auto simp: b64_char_def)

lemma a2b_data_0:
  "v < 64 \<Longrightarrow> a2b_base64_loop (b64_char v # cs) 0 l p out = a2b_base64_loop cs 1 v 0 out"
  by (simp add: b64_value_char b64_char_not_pad)

lemma a2b_data_1:
  "v < 64 \<Longrightarrow> a2b_base64_loop (b64_char v # cs) 1 l p out
     = a2b_base64_loop cs 2 (v mod 16) 0 (out @ [l * 4 + v div 16])"
  by (simp add: b64_value_char b64_char_not_pad)

lemma a2b_data_2:
  "v < 64 \<Longrightarrow> a2b_base64_loop (b64_char v # cs) 2 l p out
     = a2b_base64_loop cs 3 (v mod 4) 0 (out @ [l * 16 + v div 4])"
  by (simp add: b64_value_char b64_char_not_pad)

lemma a2b_data_3:
  "v < 64 \<Longrightarrow> a2b_base64_loop (b64_char v # cs) 3 l p out
     = a2b_base64_loop cs 0 0 0 (out @ [l * 64 + v])"
  by (simp add: b64_value_char b64_char_not_pad)

lemma a2b_base64_loop_b2a:
  "\<forall>b\<in>set bs. b < 256 \<Longrightarrow>
   a2b_base64_loop (b2a_base64 bs) 0 l p out = Inr (out @ bs)"
proof (induction bs arbitrary: l p out rule: b2a_base64.induct)
  case 1
  then show ?case by simp
next
  case (2 b1)
  then have b1: "b1 < 256" by simp
  have v1: "b1 div 4 < 64" and v2: "(b1 mod 4) * 16 < 64"
    using b1 by simp_all
  have "a2b_base64_loop (b2a_base64 [b1]) 0 l p out
      = a2b_base64_loop [61, 61] 2 (((b1 mod 4) * 16) mod 16) 0
          (out @ [(b1 div 4) * 4 + ((b1 mod 4) * 16) div 16])"
    by (simp only: b2a_base64.simps a2b_data_0 [OF v1] a2b_data_1 [OF v2])
  also have "\<dots> = Inr (out @ [(b1 div 4) * 4 + ((b1 mod 4) * 16) div 16])"
    by simp
  also have "(b1 div 4) * 4 + ((b1 mod 4) * 16) div 16 = b1"
    by simp
  finally show ?case .
next
  case (3 b1 b2)
  then have b: "b1 < 256" "b2 < 256" by simp_all
  have v1: "b1 div 4 < 64" and v2: "(b1 mod 4) * 16 + b2 div 16 < 64"
    and v3: "(b2 mod 16) * 4 < 64"
    using b by simp_all
  have e1: "(b1 div 4) * 4 + ((b1 mod 4) * 16 + b2 div 16) div 16 = b1"
    using b by simp
  have e2: "(((b1 mod 4) * 16 + b2 div 16) mod 16) * 16 + ((b2 mod 16) * 4) div 4 = b2"
    using b by simp
  have "a2b_base64_loop (b2a_base64 [b1, b2]) 0 l p out
      = a2b_base64_loop [61] 3 (((b2 mod 16) * 4) mod 4) 0 ((out @ [b1]) @ [b2])"
    by (simp only: b2a_base64.simps a2b_data_0 [OF v1] a2b_data_1 [OF v2]
        a2b_data_2 [OF v3] e1 e2)
  also have "\<dots> = Inr (out @ [b1, b2])"
    by simp
  finally show ?case .
next
  case (4 b1 b2 b3 rest)
  then have b: "b1 < 256" "b2 < 256" "b3 < 256" and rest: "\<forall>b\<in>set rest. b < 256"
    by simp_all
  have v1: "b1 div 4 < 64" and v2: "(b1 mod 4) * 16 + b2 div 16 < 64"
    and v3: "(b2 mod 16) * 4 + b3 div 64 < 64" and v4: "b3 mod 64 < 64"
    using b by simp_all
  have e1: "(b1 div 4) * 4 + ((b1 mod 4) * 16 + b2 div 16) div 16 = b1"
    using b by simp
  have e2: "(((b1 mod 4) * 16 + b2 div 16) mod 16) * 16 + ((b2 mod 16) * 4 + b3 div 64) div 4 = b2"
    using b by simp
  have e3: "(((b2 mod 16) * 4 + b3 div 64) mod 4) * 64 + b3 mod 64 = b3"
    using b by simp
  have "a2b_base64_loop (b2a_base64 (b1 # b2 # b3 # rest)) 0 l p out
      = a2b_base64_loop (b2a_base64 rest) 0 0 0 (((out @ [b1]) @ [b2]) @ [b3])"
    by (simp only: b2a_base64.simps append.simps a2b_data_0 [OF v1] a2b_data_1 [OF v2]
        a2b_data_2 [OF v3] a2b_data_3 [OF v4] e1 e2 e3)
  also have "\<dots> = Inr ((((out @ [b1]) @ [b2]) @ [b3]) @ rest)"
    using rest by (rule "4.IH")
  finally show ?case by simp
qed

lemma length_b2a_base64: "length (b2a_base64 bs) mod 4 = 0"
  by (induction bs rule: b2a_base64.induct) simp_all

lemma b2a_base64_ascii: "c \<in> set (b2a_base64 bs) \<Longrightarrow> c < 128"
  by (induction bs rule: b2a_base64.induct) (auto simp: b64_char_ascii)

lemma b2a_base64_no_colon: "58 \<notin> set (b2a_base64 bs)"
  by (induction bs rule: b2a_base64.induct) (auto simp: b64_char_not_colon)

lemma utf8_decode_ignore_ascii: "\<forall>c\<in>set t. c < 128 \<Longrightarrow> utf8_decode_ignore t = t"
  by (induction t) simp_all

lemma b64_decode_b2a_base64:
  assumes "\<forall>c\<in>set t. c < 128"
  shows "b64_decode (b2a_base64 t) = Inr t"
proof -
  have bytes: "\<forall>b\<in>set t. b < 256"
    using assms by auto
  have "\<not> list_ex (\<lambda>c. 128 \<le> c) (b2a_base64 t)"
    using b2a_base64_ascii by (auto simp: list_ex_iff not_le)
  moreover have "a2b_base64 (b2a_base64 t) = Inr t"
    unfolding a2b_base64_def using a2b_base64_loop_b2a [OF bytes, of 0 0 "[]"] by simp
  ultimately show ?thesis
    by (simp add: b64_decode_def length_b2a_base64 utf8_decode_ignore_ascii [OF assms])
qed

lemma replicate_pad:
  "replicate 1 x = [x]" "replicate 2 x = [x, x]" "replicate 3 x = [x, x, x]"
  by (simp_all add: numeral_2_eq_2 numeral_3_eq_3)

lemma substring_in_set: "substring_in sub s \<Longrightarrow> set sub \<subseteq> set s"
proof (induction s)
  case Nil
  then show ?case by simp
next
  case (Cons a s)
  from Cons.prems have "prefix sub (a # s) \<or> substring_in sub s"
    by simp
  then show ?case
  proof
    assume "prefix sub (a # s)"
    then show ?thesis by (rule set_mono_prefix)
  next
    assume "substring_in sub s"
    then have "set sub \<subseteq> set s" by (rule Cons.IH)
    then show ?thesis by auto
  qed
qed

lemma set_strip: "set s \<subseteq> set (strip s) \<union> {c. py_isspace c}"
proof -
  define xs where "xs = dropWhile py_isspace s"
  have "set s = set (takeWhile py_isspace s) \<union> set xs"
    unfolding xs_def by (metis set_append takeWhile_dropWhile_id)
  moreover have "set (takeWhile py_isspace s) \<subseteq> {c. py_isspace c}"
    by (auto dest: set_takeWhileD)
  moreover have "set xs = set (takeWhile py_isspace (rev xs)) \<union> set (strip s)"
    unfolding strip_def xs_def [symmetric]
    by (metis set_append set_rev takeWhile_dropWhile_id)
  moreover have "set (takeWhile py_isspace (rev xs)) \<subseteq> {c. py_isspace c}"
    by (auto dest: set_takeWhileD)
  ultimately show ?thesis by blast
qed


section \<open>Properties of the collector\<close>

text \<open>
  Claim C7, as stated, fails: the body \<open>QUF://AAAOi8v\<close> contains \<open>://\<close>, yet it is
  decoded (the decoder skips the colon, which is outside the base64 alphabet) and, the
  decoded text ending in \<open>://\<close>, it is replaced by its decoding.
\<close>

theorem body_with_scheme_separator_is_decoded_counterexample:
  "substring_in (ustr ''://'') (ustr ''QUF://AAAOi8v'')
   \<and> maybe_base64_decode (ustr ''QUF://AAAOi8v'') = [65, 65, 127, 0, 0, 58, 47, 47]"
  by (simp add: maybe_base64_decode_def b64_decode_def a2b_base64_def b64_value_def
      strip_def py_isspace_def ustr_def is_continuation_def Let_def replicate_pad)

text \<open>
  Claim C7, amended: the collector always attempts the base64 decoding (with padding
  correction) of the body stripped of surrounding whitespace, whether or not the body
  contains \<open>://\<close>. It uses the decoded text, stripped, when the decoding succeeds and the
  decoded text contains \<open>://\<close>, and the stripped body in every other case. In particular
  a body that is the base64 encoding of an ASCII text containing \<open>://\<close> (such a body
  never contains \<open>://\<close> itself) is replaced by that text.
\<close>

theorem maybe_base64_decode_uses_decoding:
  "(b64_decode (strip s) = Inr d \<and> substring_in (ustr ''://'') d
      \<longrightarrow> maybe_base64_decode s = strip d)
   \<and> ((\<forall>d. b64_decode (strip s) = Inr d \<longrightarrow> \<not> substring_in (ustr ''://'') d)
      \<longrightarrow> maybe_base64_decode s = strip s)
   \<and> ((\<forall>c\<in>set t. c < 128) \<and> substring_in (ustr ''://'') t \<and> strip s = b2a_base64 t
      \<longrightarrow> \<not> substring_in (ustr ''://'') s \<and> maybe_base64_decode s = strip t)"
proof (intro conjI impI)
  assume "b64_decode (strip s) = Inr d \<and> substring_in (ustr ''://'') d"
  then show "maybe_base64_decode s = strip d"
    by (simp add: maybe_base64_decode_def)
next
  assume "\<forall>d. b64_decode (strip s) = Inr d \<longrightarrow> \<not> substring_in (ustr ''://'') d"
  then show "maybe_base64_decode s = strip s"
    by (cases "b64_decode (strip s)") (simp_all add: maybe_base64_decode_def)
next
  assume a: "(\<forall>c\<in>set t. c < 128) \<and> substring_in (ustr ''://'') t \<and> strip s = b2a_base64 t"
  then have "b64_decode (strip s) = Inr t"
    by (simp add: b64_decode_b2a_base64)
  with a show "maybe_base64_decode s = strip t"
    by (simp add: maybe_base64_decode_def)
next
  assume a: "(\<forall>c\<in>set t. c < 128) \<and> substring_in (ustr ''://'') t \<and> strip s = b2a_base64 t"
  show "\<not> substring_in (ustr ''://'') s"
  proof
    assume "substring_in (ustr ''://'') s"
    then have "set (ustr ''://'') \<subseteq> set s"
      by (rule substring_in_set)
    then have "58 \<in> set s"
      by (simp add: ustr_def)
    then have "58 \<in> set (strip s) \<or> py_isspace 58"
      using set_strip [of s] by auto
    then show False
      using a b2a_base64_no_colon [of t] by (simp add: py_isspace_def)
  qed
qed

theorem maybe_base64_decode_uses_decoding_witness:
  "maybe_base64_decode (ustr '' dm1lc3M6Ly9hYmM= '') = ustr ''vmess://abc''
   \<and> \<not> substring_in (ustr ''://'') (ustr '' dm1lc3M6Ly9hYmM= '')"
proof -
  have ascii: "\<forall>c\<in>set (ustr ''vmess://abc''). c < 128"
    by (simp add: ustr_def)
  have sub: "substring_in (ustr ''://'') (ustr ''vmess://abc'')"
    by (simp add: ustr_def)
  have enc: "strip (ustr '' dm1lc3M6Ly9hYmM= '') = b2a_base64 (ustr ''vmess://abc'')"
    by (simp add: strip_def py_isspace_def ustr_def b64_char_def)
  have "strip (ustr ''vmess://abc'') = ustr ''vmess://abc''"
    by (simp add: strip_def py_isspace_def ustr_def)
  then show ?thesis
    using maybe_base64_decode_uses_decoding
      [of "ustr '' dm1lc3M6Ly9hYmM= ''" "ustr ''vmess://abc''" "ustr ''vmess://abc''"]
      ascii sub enc
    by simp
qed

section \<open>Properties of the shadowsocks renamer\<close>





lemma split_once_first:
  "split_once [c] s = Some (a, b) \<Longrightarrow> s = a @ c # b \<and> c \<notin> set a"
proof (induction s arbitrary: a)
  case Nil
  then show ?case by simp
next
  case (Cons x s)
  show ?case
  proof (cases "x = c")
    case True
    with Cons.prems show ?thesis by simp
  next
    case False
    with Cons.prems obtain a' where "split_once [c] s = Some (a', b)" and "a = x # a'"
      by (auto split: option.splits)
    with Cons.IH False show ?thesis by auto
  qed
qed





section \<open>Properties of the renamer\<close>

lemma substring_in_single: "substring_in [c] s = (c \<in> set s)"
  by (induction s) auto

lemma to_ascii_digits_letter:
  "to_ascii_digits L (ustr ''abc'') = Some (ustr ''abc'')"
  by (simp add: to_ascii_digit_def ustr_def)

lemma py_int_letters: "py_int L (ustr ''abc'') = Inl ValueError"
  by (simp add: py_int_def to_ascii_digits_letter)
     (simp add: ustr_def c_isspace_def parse_unsigned_def is_digit_def)

lemma quote_surrogate: "quote [55296] = Inl UnicodeEncodeError"
  by (simp add: quote_def utf8_encode_char_def)

text \<open>
  Claim C8: each of the three protocol-specific rewrites runs inside one \<open>try\<close> whose
  handler returns the link. So whenever the rewrite raises, at whatever stage, the
  renamer returns the original link unmodified; in particular a port that is no number
  (\<open>rename_vmess\<close>) and a tag that cannot be percent-encoded (all three) leave the link as
  it is, whatever the other stages do.
\<close>

theorem renamers_fail_soft:
  "(rename_vmess_try L link ip port tag = Inl e \<longrightarrow> rename_vmess L link ip port tag = link)
   \<and> (rename_shadowsocks_try link ip port tag = Inl e
        \<longrightarrow> rename_shadowsocks link ip port tag = link)
   \<and> (rename_generic_try L link ip port tag = Inl e
        \<longrightarrow> rename_generic L link ip port tag = link)
   \<and> (py_int L port = Inl e \<longrightarrow> rename_vmess L link ip port tag = link)
   \<and> (split_second (ustr ''ss://'') link = Inl e \<longrightarrow> rename_shadowsocks link ip port tag = link)
   \<and> (quote tag = Inl e \<longrightarrow>
         rename_vmess L link ip port tag = link
         \<and> rename_shadowsocks link ip port tag = link
         \<and> rename_generic L link ip port tag = link)"
proof (intro conjI impI)
  assume "rename_vmess_try L link ip port tag = Inl e"
  then show "rename_vmess L link ip port tag = link"
    by (simp add: rename_vmess_def)
next
  assume "rename_shadowsocks_try link ip port tag = Inl e"
  then show "rename_shadowsocks link ip port tag = link"
    by (simp add: rename_shadowsocks_def)
next
  assume "rename_generic_try L link ip port tag = Inl e"
  then show "rename_generic L link ip port tag = link"
    by (simp add: rename_generic_def)
next
  assume "py_int L port = Inl e"
  then have "\<exists>e'. rename_vmess_try L link ip port tag = Inl e'"
    by (auto simp: rename_vmess_try_def vmess_update_def split: sum.splits json.splits)
  then show "rename_vmess L link ip port tag = link"
    by (auto simp: rename_vmess_def)
next
  assume "split_second (ustr ''ss://'') link = Inl e"
  then show "rename_shadowsocks link ip port tag = link"
    by (simp add: rename_shadowsocks_def rename_shadowsocks_try_def)
next
  assume q: "quote tag = Inl e"
  then have "\<exists>e'. rename_vmess_try L link ip port tag = Inl e'"
    by (auto simp: rename_vmess_try_def split: sum.splits)
  then show "rename_vmess L link ip port tag = link"
    by (auto simp: rename_vmess_def)
next
  assume q: "quote tag = Inl e"
  then have "\<exists>e'. rename_shadowsocks_try link ip port tag = Inl e'"
    by (auto simp: rename_shadowsocks_try_def Let_def split: sum.splits prod.splits)
  then show "rename_shadowsocks link ip port tag = link"
    by (auto simp: rename_shadowsocks_def)
next
  assume q: "quote tag = Inl e"
  then have "\<exists>e'. rename_generic_try L link ip port tag = Inl e'"
    by (auto simp: rename_generic_try_def split: sum.splits)
  then show "rename_generic L link ip port tag = link"
    by (auto simp: rename_generic_def)
qed

theorem renamers_fail_soft_witness:
  "\<forall>L. rename_vmess L (ustr ''vmess://e30='') (ustr ''1.2.3.4'') (ustr ''abc'') (ustr ''t'')
         = ustr ''vmess://e30=''
       \<and> rename_shadowsocks (ustr ''http://x'') (ustr ''1.2.3.4'') (ustr ''443'') (ustr ''t'')
         = ustr ''http://x''
       \<and> rename_generic L (ustr ''trojan://example.com'') (ustr ''1.2.3.4'') (ustr ''443'')
           [55296]
         = ustr ''trojan://example.com''"
proof (intro allI conjI)
  fix L
  show "rename_vmess L (ustr ''vmess://e30='') (ustr ''1.2.3.4'') (ustr ''abc'') (ustr ''t'')
      = ustr ''vmess://e30=''"
    using renamers_fail_soft [of L "ustr ''vmess://e30=''" "ustr ''1.2.3.4''" "ustr ''abc''"
        "ustr ''t''" ValueError]
    by (simp add: py_int_letters)
  have "split_second (ustr ''ss://'') (ustr ''http://x'') = Inl IndexError"
    by (simp add: split_second_def ustr_def)
  then show "rename_shadowsocks (ustr ''http://x'') (ustr ''1.2.3.4'') (ustr ''443'') (ustr ''t'')
      = ustr ''http://x''"
    using renamers_fail_soft [of L "ustr ''http://x''" "ustr ''1.2.3.4''" "ustr ''443''"
        "ustr ''t''" IndexError]
    by simp
  show "rename_generic L (ustr ''trojan://example.com'') (ustr ''1.2.3.4'') (ustr ''443'')
        [55296]
      = ustr ''trojan://example.com''"
    using renamers_fail_soft [of L "ustr ''trojan://example.com''" "ustr ''1.2.3.4''"
        "ustr ''443''" "[55296]" UnicodeEncodeError]
    by (simp add: quote_surrogate)
qed

lemma extract_host_vmess:
  "extract_host L link (ustr ''vmess'') = [] \<or> 58 \<in> set (extract_host L link (ustr ''vmess''))"
  by (auto simp: extract_host_def extract_host_try_def ustr_def split: sum.splits)

lemma host_and_port_default: "58 \<notin> set host_port \<Longrightarrow> host_and_port host_port = (host_port, ustr ''443'')"
  by (simp add: host_and_port_def ustr_def substring_in_single)

text \<open>
  Claim C10: when the host-and-port string extracted from a link is not empty and has no
  colon, \<open>rename_line\<close> resolves the whole string as the host and hands the port \<open>443\<close> to
  the rewrite of the link's protocol, which is never the vmess one (its host-and-port
  string always has a colon): the link is rewritten by \<open>rename_shadowsocks\<close> or
  \<open>rename_generic\<close> with port \<open>443\<close>.
\<close>

theorem rename_line_default_port:
  assumes hp: "extract_host L link (detect_protocol L link) = host_port"
    and ne: "host_port \<noteq> []"
    and nocolon: "58 \<notin> set host_port"
    and dns: "resolve L host_port = Inr ip"
    and geo: "get_country_by_ip L (geo_cache st) ip = (country, cache)"
    and flag: "country_flag L country = Inr flag"
    and tag: "tag = flag @ ustr '' ShatalVPN '' @ show_nat (randint L (draws st))"
  shows "rename_line L st link =
      Inr (rename_by_protocol L (detect_protocol L link) link ip (ustr ''443'') tag,
           \<lparr>geo_cache = cache, draws = Suc (draws st)\<rparr>)
    \<and> detect_protocol L link \<noteq> ustr ''vmess''
    \<and> rename_by_protocol L (detect_protocol L link) link ip (ustr ''443'') tag =
        (if detect_protocol L link = ustr ''shadowsocks''
         then rename_shadowsocks link ip (ustr ''443'') tag
         else rename_generic L link ip (ustr ''443'') tag)"
proof (intro conjI)
  show "rename_line L st link =
      Inr (rename_by_protocol L (detect_protocol L link) link ip (ustr ''443'') tag,
           \<lparr>geo_cache = cache, draws = Suc (draws st)\<rparr>)"
    unfolding rename_line_def
    by (simp add: hp ne host_and_port_default [OF nocolon] dns geo flag tag Let_def)
  show novmess: "detect_protocol L link \<noteq> ustr ''vmess''"
  proof
    assume "detect_protocol L link = ustr ''vmess''"
    then have "host_port = extract_host L link (ustr ''vmess'')"
      using hp by simp
    then show False
      using extract_host_vmess [of L link] ne nocolon by auto
  qed
  then show "rename_by_protocol L (detect_protocol L link) link ip (ustr ''443'') tag =
        (if detect_protocol L link = ustr ''shadowsocks''
         then rename_shadowsocks link ip (ustr ''443'') tag
         else rename_generic L link ip (ustr ''443'') tag)"
    by (simp add: rename_by_protocol_def)
qed

lemma show_nat_sample: "show_nat 123456 = ustr ''123456''"
  by (simp add: show_nat.simps ustr_def)

lemma sample_protocol: "detect_protocol sample_lib (ustr ''trojan://example.com'') = ustr ''trojan''"
  by (simp add: detect_protocol_def match_scheme_def is_scheme_char_def strip_def
      py_isspace_def sample_lib_def ustr_def)

lemma sample_host:
  "extract_host sample_lib (ustr ''trojan://example.com'') (ustr ''trojan'') = ustr ''example.com''"
  by (simp add: extract_host_def extract_host_try_def sample_lib_def ustr_def)

lemma sample_country:
  "get_country_by_ip sample_lib [] (ustr ''1.2.3.4'')
     = (ustr ''de'', [(ustr ''1.2.3.4'', ustr ''de'')])"
  by (simp add: get_country_by_ip_def country_code_of_def sample_lib_def ustr_def)

lemma sample_flag: "country_flag sample_lib (ustr ''de'') = Inr [127465, 127466]"
  by (simp add: country_flag_def sample_lib_def strip_def py_isspace_def py_chr_def ustr_def)

lemma sample_tag_quoted:
  "quote ([127465, 127466] @ ustr '' ShatalVPN '' @ ustr ''123456'')
     = Inr (ustr ''%F0%9F%87%A9%F0%9F%87%AA%20ShatalVPN%20123456'')"
  by (simp add: quote_def quote_byte_def quote_safe_def hex_digit_def utf8_encode_char_def
      ustr_def)

lemma sample_rename_generic:
  "rename_generic sample_lib (ustr ''trojan://example.com'') (ustr ''1.2.3.4'') (ustr ''443'')
      ([127465, 127466] @ ustr '' ShatalVPN '' @ ustr ''123456'')
     = ustr ''trojan://1.2.3.4:443#%F0%9F%87%A9%F0%9F%87%AA%20ShatalVPN%20123456''"
  unfolding rename_generic_def rename_generic_try_def sample_tag_quoted
  by (simp add: sample_lib_def ustr_def)

theorem rename_line_default_port_witness:
  "rename_line sample_lib \<lparr>geo_cache = [], draws = 0\<rparr> (ustr ''trojan://example.com'')
     = Inr (ustr ''trojan://1.2.3.4:443#%F0%9F%87%A9%F0%9F%87%AA%20ShatalVPN%20123456'',
            \<lparr>geo_cache = [(ustr ''1.2.3.4'', ustr ''de'')], draws = 1\<rparr>)"
proof -
  have hp: "extract_host sample_lib (ustr ''trojan://example.com'')
      (detect_protocol sample_lib (ustr ''trojan://example.com'')) = ustr ''example.com''"
    by (simp add: sample_protocol sample_host)
  have ne: "ustr ''example.com'' \<noteq> []" and nocolon: "58 \<notin> set (ustr ''example.com'')"
    by (simp_all add: ustr_def)
  have dns: "resolve sample_lib (ustr ''example.com'') = Inr (ustr ''1.2.3.4'')"
    by (simp add: resolve_def sample_lib_def)
  have geo: "get_country_by_ip sample_lib (geo_cache \<lparr>geo_cache = [], draws = 0\<rparr>)
      (ustr ''1.2.3.4'') = (ustr ''de'', [(ustr ''1.2.3.4'', ustr ''de'')])"
    by (simp add: sample_country)
  have tag: "[127465, 127466] @ ustr '' ShatalVPN '' @ ustr ''123456''
      = [127465, 127466] @ ustr '' ShatalVPN ''
          @ show_nat (randint sample_lib (draws \<lparr>geo_cache = [], draws = 0\<rparr>))"
    by (simp add: sample_lib_def show_nat_sample)
  have trojan: "ustr ''trojan'' \<noteq> ustr ''shadowsocks''"
    by (simp add: ustr_def)
  show ?thesis
    using rename_line_default_port [OF hp ne nocolon dns geo sample_flag tag]
    by (simp add: sample_protocol trojan sample_rename_generic [simplified])
qed

section \<open>Properties of the output\<close>

lemma rename_lines_length:
  "rename_lines L st ls = Inr (rs, st') \<Longrightarrow> length rs = length ls"
proof (induction ls arbitrary: st rs)
  case Nil
  then show ?case by simp
next
  case (Cons l ls)
  from Cons.prems obtain r st1 rs' where "rename_lines L st1 ls = Inr (rs', st')"
    and "rs = r # rs'"
    by (auto split: sum.splits prod.splits)
  with Cons.IH show ?case by auto
qed

lemma split_on_absent: "c \<notin> set l \<Longrightarrow> split_on c l = [l]"
  by (induction l) auto

lemma split_on_line: "c \<notin> set l \<Longrightarrow> split_on c (l @ c # rest) = l # split_on c rest"
  by (induction l) auto

lemma file_lines_join:
  "ls \<noteq> [] \<Longrightarrow> \<forall>l\<in>set ls. 10 \<notin> set l \<Longrightarrow> file_lines (join_lines ls) = ls"
proof (induction ls rule: join_lines.induct)
  case 1
  then show ?case by simp
next
  case (2 l)
  then show ?case by (simp add: file_lines_def split_on_absent)
next
  case (3 l m ls)
  then have "file_lines (join_lines (m # ls)) = m # ls"
    by simp
  with "3.prems" show ?case
    by (simp add: file_lines_def split_on_line)
qed

lemma all_light_paths: "path_join d (ustr ''all.txt'') \<noteq> path_join d (ustr ''light.txt'')"
  by (simp add: path_join_def ustr_def)

text \<open>
  Claim C9: when the files of a country with at least one ranked link are written, the
  file \<open>all.txt\<close> holds the renamed links, one per line, and \<open>light.txt\<close> holds the first
  30 of the very same renamed links (tags included): the sequence of \<open>light.txt\<close> has at
  most 30 entries and is a prefix of the sequence of \<open>all.txt\<close>. A renamed link without
  a line feed being one line of the file, \<open>light.txt\<close> then has at most 30 lines.
\<close>

theorem light_file_prefix_of_all:
  assumes run: "save_country L st fs country ranked protos = Inr (fs', st')"
    and links: "ranked \<noteq> []"
  shows "\<exists>renamed_all st1.
      rename_lines L st ranked = Inr (renamed_all, st1)
      \<and> fs' (path_join (path_join output_dir country) (ustr ''all.txt''))
          = Some (join_lines renamed_all)
      \<and> fs' (path_join (path_join output_dir country) (ustr ''light.txt''))
          = Some (join_lines (take 30 renamed_all))
      \<and> length (take 30 renamed_all) \<le> 30
      \<and> prefix (take 30 renamed_all) renamed_all
      \<and> ((\<forall>l\<in>set renamed_all. 10 \<notin> set l) \<longrightarrow>
            file_lines (join_lines renamed_all) = renamed_all
            \<and> file_lines (join_lines (take 30 renamed_all)) = take 30 renamed_all
            \<and> length (file_lines (join_lines (take 30 renamed_all))) \<le> 30)"
proof -
  from run obtain renamed_all st1 fs1 where
    all: "rename_lines L st ranked = Inr (renamed_all, st1)"
    and fs': "fs' = save_to_file
        (save_to_file fs1 (path_join (path_join output_dir country) (ustr ''all.txt''))
           renamed_all)
        (path_join (path_join output_dir country) (ustr ''light.txt'')) (take 30 renamed_all)"
    by (auto simp: save_country_def Let_def split: sum.splits prod.splits)
  have "length renamed_all = length ranked"
    using all by (rule rename_lines_length)
  with links have ne: "renamed_all \<noteq> []"
    by auto
  then have ne30: "take 30 renamed_all \<noteq> []"
    by simp
  have a: "fs' (path_join (path_join output_dir country) (ustr ''all.txt''))
      = Some (join_lines renamed_all)"
    unfolding fs' using ne ne30 all_light_paths [of "path_join output_dir country"]
    by (simp add: save_to_file_def)
  have l: "fs' (path_join (path_join output_dir country) (ustr ''light.txt''))
      = Some (join_lines (take 30 renamed_all))"
    unfolding fs' using ne30 by (simp add: save_to_file_def)
  have p: "prefix (take 30 renamed_all) renamed_all"
    by (rule take_is_prefix)
  have f: "file_lines (join_lines renamed_all) = renamed_all
      \<and> file_lines (join_lines (take 30 renamed_all)) = take 30 renamed_all
      \<and> length (file_lines (join_lines (take 30 renamed_all))) \<le> 30"
    if clean: "\<forall>l\<in>set renamed_all. 10 \<notin> set l"
  proof -
    have "\<forall>l\<in>set (take 30 renamed_all). 10 \<notin> set l"
      using clean by (auto dest: in_set_takeD)
    then have "file_lines (join_lines (take 30 renamed_all)) = take 30 renamed_all"
      using ne30 by (intro file_lines_join)
    moreover have "file_lines (join_lines renamed_all) = renamed_all"
      using ne clean by (intro file_lines_join)
    ultimately show ?thesis by simp
  qed
  from all a l p f show ?thesis
    by (intro exI [of _ renamed_all] exI [of _ st1]) simp
qed

lemma sample_unparsed:
  "l \<noteq> ustr ''trojan://example.com'' \<Longrightarrow> extract_host sample_lib l p = []"
  by (simp add: extract_host_def extract_host_try_def sample_lib_def split: sum.splits)

lemma rename_line_unparsed:
  "extract_host L l (detect_protocol L l) = [] \<Longrightarrow> rename_line L st l = Inr (l, st)"
  by (simp add: rename_line_def)

lemma sample_rename_lines:
  "\<forall>l\<in>set ls. l \<noteq> ustr ''trojan://example.com'' \<Longrightarrow>
   rename_lines sample_lib st ls = Inr (ls, st)"
  by (induction ls) (simp_all add: rename_line_unparsed sample_unparsed)

lemma sample_save_protocols:
  assumes "\<forall>l\<in>set ls. l \<noteq> ustr ''trojan://example.com''"
  shows "\<exists>fs1. save_protocols sample_lib st fs d ls protos = Inr (fs1, st)"
proof (induction protos arbitrary: fs)
  case Nil
  then show ?case by simp
next
  case (Cons proto protos)
  have "\<forall>l\<in>set (filter (\<lambda>l. detect_protocol sample_lib l = proto) ls).
      l \<noteq> ustr ''trojan://example.com''"
    using assms by auto
  then have "rename_lines sample_lib st (filter (\<lambda>l. detect_protocol sample_lib l = proto) ls)
      = Inr (filter (\<lambda>l. detect_protocol sample_lib l = proto) ls, st)"
    by (rule sample_rename_lines)
  then show ?case
    using Cons.IH by simp
qed

theorem light_file_prefix_of_all_witness:
  "\<exists>fs' st'.
      save_country sample_lib \<lparr>geo_cache = [], draws = 0\<rparr> Map.empty (ustr ''de'')
        [ustr ''vless://[x'', ustr ''vless://[y''] [ustr ''vless''] = Inr (fs', st')
      \<and> fs' (ustr ''configs/de/all.txt'') = Some (ustr ''vless://[x'' @ [10] @ ustr ''vless://[y'')
      \<and> fs' (ustr ''configs/de/light.txt'') = Some (ustr ''vless://[x'' @ [10] @ ustr ''vless://[y'')"
proof -
  let ?ranked = "[ustr ''vless://[x'', ustr ''vless://[y'']"
  let ?st = "\<lparr>geo_cache = [], draws = 0\<rparr>"
  have other: "\<forall>l\<in>set ?ranked. l \<noteq> ustr ''trojan://example.com''"
    by (simp add: ustr_def)
  then have all: "rename_lines sample_lib ?st ?ranked = Inr (?ranked, ?st)"
    by (rule sample_rename_lines)
  obtain fs1 where "save_protocols sample_lib ?st Map.empty
      (path_join output_dir (ustr ''de'')) ?ranked [ustr ''vless''] = Inr (fs1, ?st)"
    using sample_save_protocols [OF other] by blast
  then obtain fs' where run: "save_country sample_lib ?st Map.empty (ustr ''de'') ?ranked
      [ustr ''vless''] = Inr (fs', ?st)"
    unfolding save_country_def all by (simp add: Let_def)
  have dir: "path_join output_dir (ustr ''de'') = ustr ''configs/de''"
    by (simp add: path_join_def output_dir_def ustr_def)
  have paths: "path_join (ustr ''configs/de'') (ustr ''all.txt'') = ustr ''configs/de/all.txt''"
      "path_join (ustr ''configs/de'') (ustr ''light.txt'') = ustr ''configs/de/light.txt''"
    by (simp_all add: path_join_def ustr_def)
  have links: "?ranked \<noteq> []"
    by simp
  from light_file_prefix_of_all [OF run links] obtain renamed_all st1 where
    r: "rename_lines sample_lib ?st ?ranked = Inr (renamed_all, st1)"
    and fa: "fs' (ustr ''configs/de/all.txt'') = Some (join_lines renamed_all)"
    and fl: "fs' (ustr ''configs/de/light.txt'') = Some (join_lines (take 30 renamed_all))"
    unfolding dir paths by auto
  have eq: "renamed_all = ?ranked"
    using r unfolding all by simp
  have "fs' (ustr ''configs/de/all.txt'')
        = Some (ustr ''vless://[x'' @ [10] @ ustr ''vless://[y'')"
    and "fs' (ustr ''configs/de/light.txt'')
        = Some (ustr ''vless://[x'' @ [10] @ ustr ''vless://[y'')"
    using fa fl unfolding eq by simp_all
  with run show ?thesis
    by blast
qed

section \<open>Properties of the vmess renamer\<close>

lemma a2b_base64_loop_padded:
  "\<forall>b\<in>set bs. b < 256 \<Longrightarrow> length bs mod 3 \<noteq> 0 \<Longrightarrow>
   a2b_base64_loop (b2a_base64 bs @ rest) 0 l p out = Inr (out @ bs)"
proof (induction bs arbitrary: l p out rule: b2a_base64.induct)
  case 1
  then show ?case by simp
next
  case (2 b1)
  then have b1: "b1 < 256" by simp
  have v1: "b1 div 4 < 64" and v2: "(b1 mod 4) * 16 < 64"
    using b1 by simp_all
  have "a2b_base64_loop (b2a_base64 [b1] @ rest) 0 l p out
      = a2b_base64_loop (61 # 61 # rest) 2 (((b1 mod 4) * 16) mod 16) 0
          (out @ [(b1 div 4) * 4 + ((b1 mod 4) * 16) div 16])"
    by (simp only: b2a_base64.simps append.simps a2b_data_0 [OF v1] a2b_data_1 [OF v2])
  also have "\<dots> = Inr (out @ [(b1 div 4) * 4 + ((b1 mod 4) * 16) div 16])"
    by simp
  also have "(b1 div 4) * 4 + ((b1 mod 4) * 16) div 16 = b1"
    by simp
  finally show ?case .
next
  case (3 b1 b2)
  then have b: "b1 < 256" "b2 < 256" by simp_all
  have v1: "b1 div 4 < 64" and v2: "(b1 mod 4) * 16 + b2 div 16 < 64"
    and v3: "(b2 mod 16) * 4 < 64"
    using b by simp_all
  have e1: "(b1 div 4) * 4 + ((b1 mod 4) * 16 + b2 div 16) div 16 = b1"
    using b by simp
  have e2: "(((b1 mod 4) * 16 + b2 div 16) mod 16) * 16 + ((b2 mod 16) * 4) div 4 = b2"
    using b by simp
  have "a2b_base64_loop (b2a_base64 [b1, b2] @ rest) 0 l p out
      = a2b_base64_loop (61 # rest) 3 (((b2 mod 16) * 4) mod 4) 0 ((out @ [b1]) @ [b2])"
    by (simp only: b2a_base64.simps append.simps a2b_data_0 [OF v1] a2b_data_1 [OF v2]
        a2b_data_2 [OF v3] e1 e2)
  also have "\<dots> = Inr (out @ [b1, b2])"
    by simp
  finally show ?case .
next
  case (4 b1 b2 b3 bs)
  then have b: "b1 < 256" "b2 < 256" "b3 < 256" and bs: "\<forall>b\<in>set bs. b < 256"
    and len: "length bs mod 3 \<noteq> 0"
    by simp_all
  have v1: "b1 div 4 < 64" and v2: "(b1 mod 4) * 16 + b2 div 16 < 64"
    and v3: "(b2 mod 16) * 4 + b3 div 64 < 64" and v4: "b3 mod 64 < 64"
    using b by simp_all
  have e1: "(b1 div 4) * 4 + ((b1 mod 4) * 16 + b2 div 16) div 16 = b1"
    using b by simp
  have e2: "(((b1 mod 4) * 16 + b2 div 16) mod 16) * 16 + ((b2 mod 16) * 4 + b3 div 64) div 4 = b2"
    using b by simp
  have e3: "(((b2 mod 16) * 4 + b3 div 64) mod 4) * 64 + b3 mod 64 = b3"
    using b by simp
  have "a2b_base64_loop (b2a_base64 (b1 # b2 # b3 # bs) @ rest) 0 l p out
      = a2b_base64_loop (b2a_base64 bs @ rest) 0 0 0 (((out @ [b1]) @ [b2]) @ [b3])"
    by (simp only: b2a_base64.simps append.simps append_assoc a2b_data_0 [OF v1]
        a2b_data_1 [OF v2] a2b_data_2 [OF v3] a2b_data_3 [OF v4] e1 e2 e3)
  also have "\<dots> = Inr ((((out @ [b1]) @ [b2]) @ [b3]) @ bs)"
    using bs len by (rule "4.IH")
  finally show ?case by simp
qed

lemma utf8_encode_ascii: "\<forall>c\<in>set s. c < 128 \<Longrightarrow> utf8_encode s = Inr s"
  by (induction s) (simp_all add: utf8_encode_char_def)

lemma utf8_encode_char_bytes: "utf8_encode_char c = Inr bs \<Longrightarrow> \<forall>b\<in>set bs. b < 256"
  by (auto simp: utf8_encode_char_def split: if_splits)

lemma utf8_encode_bytes: "utf8_encode s = Inr bs \<Longrightarrow> \<forall>b\<in>set bs. b < 256"
proof (induction s arbitrary: bs)
  case Nil
  then show ?case by simp
next
  case (Cons c s)
  from Cons.prems obtain b1 b2 where "utf8_encode_char c = Inr b1"
    and "utf8_encode s = Inr b2" and "bs = b1 @ b2"
    by (auto split: sum.splits)
  then show ?case
    using Cons.IH utf8_encode_char_bytes by auto
qed

lemma quote_byte_ascii: "b < 256 \<Longrightarrow> \<forall>c\<in>set (quote_byte b). c < 128"
  by (auto simp: quote_byte_def quote_safe_def hex_digit_def)

lemma quote_ascii: "quote t = Inr q \<Longrightarrow> \<forall>c\<in>set q. c < 128"
proof -
  assume "quote t = Inr q"
  then obtain bs where bs: "utf8_encode t = Inr bs" and q: "q = concat (map quote_byte bs)"
    by (auto simp: quote_def split: sum.splits)
  have "\<forall>b\<in>set bs. b < 256"
    using bs by (rule utf8_encode_bytes)
  then show ?thesis
    unfolding q using quote_byte_ascii by auto
qed

lemma b64_decode_padded_with_fragment:
  assumes ascii: "\<forall>c\<in>set t. c < 128" and padded: "length t mod 3 \<noteq> 0"
    and frag: "\<forall>c\<in>set rest. c < 128"
  shows "b64_decode (b2a_base64 t @ rest) = Inr t"
proof -
  define pad where "pad = replicate ((4 - length (b2a_base64 t @ rest) mod 4) mod 4) (61::nat)"
  have bytes: "\<forall>b\<in>set t. b < 256"
    using ascii by auto
  have "\<forall>c\<in>set ((b2a_base64 t @ rest) @ pad). c < 128"
    using b2a_base64_ascii frag by (auto simp: pad_def)
  then have "\<not> list_ex (\<lambda>c. 128 \<le> c) ((b2a_base64 t @ rest) @ pad)"
    by (auto simp: list_ex_iff not_le)
  moreover have "a2b_base64 ((b2a_base64 t @ rest) @ pad) = Inr t"
    unfolding a2b_base64_def
    using a2b_base64_loop_padded [OF bytes padded, of "rest @ pad" 0 0 "[]"] by simp
  ultimately show ?thesis
    unfolding b64_decode_def Let_def pad_def [symmetric]
    by (simp add: utf8_decode_ignore_ascii [OF ascii])
qed

lemma vmess_padded_reparse:
  assumes ascii: "\<forall>c\<in>set dumped. c < 128" and padded: "length dumped mod 3 \<noteq> 0"
    and qtag: "quote tag = Inr qtag"
  shows "b64_decode (drop 8 (ustr ''vmess://'' @ b2a_base64 dumped @ ustr ''#'' @ qtag))
      = Inr dumped"
proof -
  have "\<forall>c\<in>set (ustr ''#'' @ qtag). c < 128"
    using quote_ascii [OF qtag] by (simp add: ustr_def)
  then have "b64_decode (b2a_base64 dumped @ ustr ''#'' @ qtag) = Inr dumped"
    using ascii padded by (intro b64_decode_padded_with_fragment)
  then show ?thesis
    by (simp add: ustr_def)
qed

lemma vmess_sample_link:
  "b64_decode (ustr ''eyJhZGQiOiAib2xkLmV4YW1wbGUiLCAicG9ydCI6IDEsICJwcyI6ICJ4In0='')
     = Inr (vmess_document (ustr ''old.example'') 1 (ustr ''x''))"
  by (simp add: b64_decode_def a2b_base64_def b64_value_def is_continuation_def
      vmess_document_def dquote_def show_int_def show_nat.simps ustr_def Let_def)

lemma vmess_sample_split:
  "split_second (ustr ''://'')
     (ustr ''vmess://eyJhZGQiOiAib2xkLmV4YW1wbGUiLCAicG9ydCI6IDEsICJwcyI6ICJ4In0='')
     = Inr (ustr ''eyJhZGQiOiAib2xkLmV4YW1wbGUiLCAicG9ydCI6IDEsICJwcyI6ICJ4In0='')"
  by (simp add: split_second_def ustr_def)

lemma vmess_sample_loads:
  "json_loads vmess_sample_lib (vmess_document (ustr ''old.example'') 1 (ustr ''x''))
     = Inr (JObj [(ustr ''add'', JStr (ustr ''old.example'')), (ustr ''port'', JInt 1),
                  (ustr ''ps'', JStr (ustr ''x''))])"
  by (simp add: vmess_sample_lib_def vmess_config_def)

lemma py_int_443: "py_int L (ustr ''443'') = Inr 443"
  by (simp add: py_int_def to_ascii_digit_def c_isspace_def parse_unsigned_def is_digit_def
      ustr_def)

lemma py_int_80: "py_int L (ustr ''80'') = Inr 80"
  by (simp add: py_int_def to_ascii_digit_def c_isspace_def parse_unsigned_def is_digit_def
      ustr_def)

lemma vmess_sample_update:
  "AList.update (ustr ''ps'') (JStr p)
     (AList.update (ustr ''port'') (JInt n)
       (AList.update (ustr ''add'') (JStr a)
          [(ustr ''add'', JStr (ustr ''old.example'')), (ustr ''port'', JInt 1),
           (ustr ''ps'', JStr (ustr ''x''))]))
   = [(ustr ''add'', JStr a), (ustr ''port'', JInt n), (ustr ''ps'', JStr p)]"
  by (simp add: ustr_def)

lemma quote_T: "quote (ustr ''T'') = Inr (ustr ''T'')"
  by (simp add: quote_def quote_byte_def quote_safe_def utf8_encode_char_def ustr_def)

text \<open>
  Claim C1, as stated, fails. The link carries the configuration
  \<open>{"add": "old.example", "port": 1, "ps": "x"}\<close>; it is renamed with the address
  \<open>1.2.3.4\<close>, the port \<open>443\<close> and the tag \<open>T\<close>. The new configuration has 42 bytes, so its
  base64 text ends without padding, and the renamed link is that text followed by \<open>#T\<close>.
  The classifier decodes everything after \<open>vmess://\<close>, the fragment included: the decoder
  skips \<open>#\<close>, takes \<open>T\<close> for one more base64 character and raises; \<open>extract_host\<close>
  returns the empty string, not \<open>1.2.3.4:443\<close>.
\<close>

theorem renamed_vmess_not_reparsed_counterexample:
  "rename_vmess vmess_sample_lib
      (ustr ''vmess://eyJhZGQiOiAib2xkLmV4YW1wbGUiLCAicG9ydCI6IDEsICJwcyI6ICJ4In0='')
      (ustr ''1.2.3.4'') (ustr ''443'') (ustr ''T'')
     = ustr ''vmess://eyJhZGQiOiAiMS4yLjMuNCIsICJwb3J0IjogNDQzLCAicHMiOiAiVCJ9#T''
   \<and> extract_host vmess_sample_lib
        (ustr ''vmess://eyJhZGQiOiAiMS4yLjMuNCIsICJwb3J0IjogNDQzLCAicHMiOiAiVCJ9#T'')
        (ustr ''vmess'')
     = []"
proof
  have dumps: "json_dumps vmess_sample_lib
      (JObj [(ustr ''add'', JStr (ustr ''1.2.3.4'')), (ustr ''port'', JInt 443),
             (ustr ''ps'', JStr (ustr ''T''))])
      = Inr (vmess_document (ustr ''1.2.3.4'') 443 (ustr ''T''))"
    by (simp add: vmess_sample_lib_def vmess_config_def ustr_def)
  have enc: "b64_encode (vmess_document (ustr ''1.2.3.4'') 443 (ustr ''T''))
      = Inr (ustr ''eyJhZGQiOiAiMS4yLjMuNCIsICJwb3J0IjogNDQzLCAicHMiOiAiVCJ9'')"
    by (simp add: b64_encode_def utf8_encode_char_def b64_char_def vmess_document_def
        dquote_def show_int_def show_nat.simps ustr_def)
  show "rename_vmess vmess_sample_lib
      (ustr ''vmess://eyJhZGQiOiAib2xkLmV4YW1wbGUiLCAicG9ydCI6IDEsICJwcyI6ICJ4In0='')
      (ustr ''1.2.3.4'') (ustr ''443'') (ustr ''T'')
     = ustr ''vmess://eyJhZGQiOiAiMS4yLjMuNCIsICJwb3J0IjogNDQzLCAicHMiOiAiVCJ9#T''"
    unfolding rename_vmess_def rename_vmess_try_def vmess_sample_split
    by (simp add: vmess_sample_link vmess_sample_loads vmess_update_def py_int_443
        vmess_sample_update dumps enc quote_T)
       (simp add: ustr_def)
  have "b64_decode (drop 8
      (ustr ''vmess://eyJhZGQiOiAiMS4yLjMuNCIsICJwb3J0IjogNDQzLCAicHMiOiAiVCJ9#T''))
      = Inl BinasciiError"
    by (simp add: b64_decode_def a2b_base64_def b64_value_def ustr_def Let_def replicate_pad)
  then show "extract_host vmess_sample_lib
        (ustr ''vmess://eyJhZGQiOiAiMS4yLjMuNCIsICJwb3J0IjogNDQzLCAicHMiOiAiVCJ9#T'')
        (ustr ''vmess'')
     = []"
    by (simp add: extract_host_def extract_host_try_def)
qed

text \<open>
  Claim C1, amended. Take a vmess link whose payload decodes to a JSON object, an
  address, a tag that can be percent-encoded and a port that \<open>int\<close> accepts, with value
  \<open>n\<close>. Let \<open>json.dumps\<close> write the updated configuration as an ASCII text (as it does by
  default) whose length is not a multiple of 3, so that its base64 text ends with \<open>=\<close>,
  and let \<open>json.loads\<close> read that text back. Then the renamed link is \<open>vmess://\<close>, the
  base64 text, \<open>#\<close> and the percent-encoded tag; the classifier decodes the new
  configuration from it, whose \<open>add\<close>, \<open>port\<close> and \<open>ps\<close> are the address, \<open>n\<close> and the
  tag, and \<open>extract_host\<close> returns the address, a colon and \<open>n\<close> in decimal.
\<close>

theorem rename_vmess_round_trip:
  assumes raw: "split_second (ustr ''://'') link = Inr raw"
    and dec: "b64_decode raw = Inr text"
    and cfg: "json_loads L text = Inr (JObj kvs)"
    and pn: "py_int L port = Inr n"
    and upd: "kvs' = AList.update (ustr ''ps'') (JStr tag)
                (AList.update (ustr ''port'') (JInt n)
                  (AList.update (ustr ''add'') (JStr ip) kvs))"
    and dumped: "json_dumps L (JObj kvs') = Inr dumped"
    and ascii: "\<forall>c\<in>set dumped. c < 128"
    and padded: "length dumped mod 3 \<noteq> 0"
    and loads: "json_loads L dumped = Inr (JObj kvs')"
    and qtag: "quote tag = Inr qtag"
  shows "rename_vmess L link ip port tag
        = ustr ''vmess://'' @ b2a_base64 dumped @ ustr ''#'' @ qtag
    \<and> b64_decode (drop 8 (rename_vmess L link ip port tag)) = Inr dumped
    \<and> map_of kvs' (ustr ''add'') = Some (JStr ip)
    \<and> map_of kvs' (ustr ''port'') = Some (JInt n)
    \<and> map_of kvs' (ustr ''ps'') = Some (JStr tag)
    \<and> extract_host L (rename_vmess L link ip port tag) (ustr ''vmess'')
        = ip @ ustr '':'' @ show_int n"
proof -
  have enc: "b64_encode dumped = Inr (b2a_base64 dumped)"
    by (simp add: b64_encode_def utf8_encode_ascii [OF ascii])
  have renamed: "rename_vmess L link ip port tag
      = ustr ''vmess://'' @ b2a_base64 dumped @ ustr ''#'' @ qtag"
    unfolding rename_vmess_def rename_vmess_try_def
    by (simp add: raw dec cfg vmess_update_def pn upd [symmetric] dumped enc qtag)
  have decoded: "b64_decode (drop 8 (rename_vmess L link ip port tag)) = Inr dumped"
    unfolding renamed using ascii padded qtag by (rule vmess_padded_reparse)
  have add: "map_of kvs' (ustr ''add'') = Some (JStr ip)"
    and prt: "map_of kvs' (ustr ''port'') = Some (JInt n)"
    and ps: "map_of kvs' (ustr ''ps'') = Some (JStr tag)"
    unfolding upd by (simp_all add: update_conv' ustr_def)
  have "extract_host L (rename_vmess L link ip port tag) (ustr ''vmess'')
      = ip @ ustr '':'' @ show_int n"
    unfolding extract_host_def extract_host_try_def
    by (simp add: decoded loads dict_get_def add prt)
  with renamed decoded add prt ps show ?thesis
    by simp
qed

theorem rename_vmess_round_trip_witness:
  "rename_vmess vmess_sample_lib
      (ustr ''vmess://eyJhZGQiOiAib2xkLmV4YW1wbGUiLCAicG9ydCI6IDEsICJwcyI6ICJ4In0='')
      (ustr ''9.9.9.9'') (ustr ''80'') (ustr ''T'')
     = ustr ''vmess://eyJhZGQiOiAiOS45LjkuOSIsICJwb3J0IjogODAsICJwcyI6ICJUIn0=#T''
   \<and> extract_host vmess_sample_lib
        (rename_vmess vmess_sample_lib
          (ustr ''vmess://eyJhZGQiOiAib2xkLmV4YW1wbGUiLCAicG9ydCI6IDEsICJwcyI6ICJ4In0='')
          (ustr ''9.9.9.9'') (ustr ''80'') (ustr ''T''))
        (ustr ''vmess'')
     = ustr ''9.9.9.9:80''"
proof -
  let ?kvs' = "[(ustr ''add'', JStr (ustr ''9.9.9.9'')), (ustr ''port'', JInt 80),
                (ustr ''ps'', JStr (ustr ''T''))]"
  let ?doc = "vmess_document (ustr ''9.9.9.9'') 80 (ustr ''T'')"
  have upd: "?kvs' = AList.update (ustr ''ps'') (JStr (ustr ''T''))
      (AList.update (ustr ''port'') (JInt 80)
        (AList.update (ustr ''add'') (JStr (ustr ''9.9.9.9''))
          [(ustr ''add'', JStr (ustr ''old.example'')), (ustr ''port'', JInt 1),
           (ustr ''ps'', JStr (ustr ''x''))]))"
    by (rule vmess_sample_update [symmetric])
  have dumps: "json_dumps vmess_sample_lib (JObj ?kvs') = Inr ?doc"
    by (simp add: vmess_sample_lib_def vmess_config_def ustr_def)
  have loads: "json_loads vmess_sample_lib ?doc = Inr (JObj ?kvs')"
    by (simp add: vmess_sample_lib_def vmess_config_def vmess_document_def dquote_def
        show_int_def show_nat.simps ustr_def)
  have ascii: "\<forall>c\<in>set ?doc. c < 128"
    by (simp add: vmess_document_def dquote_def show_int_def show_nat.simps ustr_def)
  have padded: "length ?doc mod 3 \<noteq> 0"
    by (simp add: vmess_document_def dquote_def show_int_def show_nat.simps ustr_def)
  have enc: "b2a_base64 ?doc = ustr ''eyJhZGQiOiAiOS45LjkuOSIsICJwb3J0IjogODAsICJwcyI6ICJUIn0=''"
    by (simp add: b64_char_def vmess_document_def dquote_def show_int_def show_nat.simps
        ustr_def)
  have shown: "show_int 80 = ustr ''80''"
    by (simp add: show_int_def show_nat.simps ustr_def)
  note round_trip = rename_vmess_round_trip [OF vmess_sample_split vmess_sample_link
      vmess_sample_loads py_int_80 upd dumps ascii padded loads quote_T]
  from round_trip have r: "rename_vmess vmess_sample_lib
      (ustr ''vmess://eyJhZGQiOiAib2xkLmV4YW1wbGUiLCAicG9ydCI6IDEsICJwcyI6ICJ4In0='')
      (ustr ''9.9.9.9'') (ustr ''80'') (ustr ''T'')
      = ustr ''vmess://'' @ b2a_base64 ?doc @ ustr ''#'' @ ustr ''T''"
    by (rule conjunct1)
  from round_trip have e: "extract_host vmess_sample_lib
      (rename_vmess vmess_sample_lib
        (ustr ''vmess://eyJhZGQiOiAib2xkLmV4YW1wbGUiLCAicG9ydCI6IDEsICJwcyI6ICJ4In0='')
        (ustr ''9.9.9.9'') (ustr ''80'') (ustr ''T''))
      (ustr ''vmess'')
      = ustr ''9.9.9.9'' @ ustr '':'' @ show_int 80"
    by (elim conjE)
  have r': "rename_vmess vmess_sample_lib
      (ustr ''vmess://eyJhZGQiOiAib2xkLmV4YW1wbGUiLCAicG9ydCI6IDEsICJwcyI6ICJ4In0='')
      (ustr ''9.9.9.9'') (ustr ''80'') (ustr ''T'')
      = ustr ''vmess://eyJhZGQiOiAiOS45LjkuOSIsICJwb3J0IjogODAsICJwcyI6ICJUIn0=#T''"
    unfolding r enc by (simp add: ustr_def)
  have e': "extract_host vmess_sample_lib
      (rename_vmess vmess_sample_lib
        (ustr ''vmess://eyJhZGQiOiAib2xkLmV4YW1wbGUiLCAicG9ydCI6IDEsICJwcyI6ICJ4In0='')
        (ustr ''9.9.9.9'') (ustr ''80'') (ustr ''T''))
      (ustr ''vmess'')
      = ustr ''9.9.9.9:80''"
    unfolding e shown by (simp add: ustr_def)
  show ?thesis
    by (intro conjI r' e')
qed


end
